theory Spec2Isabelle
  imports Main "HOL-Library.Word" "HOL-Library.Monad_Syntax"
begin

section \<open>JavaScript strings\<close>

text \<open>
  A JavaScript string is a sequence of UTF-16 code units, and a regular expression
  without the \<^verbatim>\<open>u\<close> flag (every one in the content script) matches code
  units. A string literal of the script is written \<open>js ''...''\<close>.
\<close>

type_synonym jschar = \<open>16 word\<close>
type_synonym jsstring = \<open>jschar list\<close>

definition js :: \<open>string \<Rightarrow> jsstring\<close> where
  \<open>js s = map of_char s\<close>

text \<open>
  The code units that \<^verbatim>\<open>\\s\<close> matches and that \<^verbatim>\<open>trim()\<close>
  strips: ECMAScript's WhiteSpace and LineTerminator productions (both use the same set).
\<close>

definition whiteSpaceUnits :: \<open>jschar list\<close> where
  \<open>whiteSpaceUnits =
     [0x0009, 0x000A, 0x000B, 0x000C, 0x000D, 0x0020, 0x00A0, 0x1680,
      0x2000, 0x2001, 0x2002, 0x2003, 0x2004, 0x2005, 0x2006, 0x2007,
      0x2008, 0x2009, 0x200A, 0x2028, 0x2029, 0x202F, 0x205F, 0x3000, 0xFEFF]\<close>

definition isWhiteSpace :: \<open>jschar \<Rightarrow> bool\<close> where
  \<open>isWhiteSpace c = (c \<in> set whiteSpaceUnits)\<close>

section \<open>The filename sanitizer\<close>

text \<open>
  \<^verbatim>\<open>sanitizeFilename\<close>: three chained string operations.
  \<^verbatim>\<open>.replace(/[<>:"/\\|?*]/g, '')\<close> deletes every code unit of the class;
  \<^verbatim>\<open>.replace(/\\s+/g, ' ')\<close> replaces every maximal run of white space by
  one space; \<^verbatim>\<open>.trim()\<close> strips white space at both ends.
\<close>

definition invalidChars :: \<open>jschar list\<close> where
  \<open>invalidChars = js ''<>:"/'' @ [0x5C] @ js ''|?*''\<close>

definition removeInvalid :: \<open>jsstring \<Rightarrow> jsstring\<close> where
  \<open>removeInvalid s = filter (\<lambda>c. c \<notin> set invalidChars) s\<close>

function collapseWhiteSpace :: \<open>jsstring \<Rightarrow> jsstring\<close> where
  \<open>collapseWhiteSpace [] = []\<close>
| \<open>collapseWhiteSpace (c # cs) =
     (if isWhiteSpace c then 0x20 # collapseWhiteSpace (dropWhile isWhiteSpace cs)
      else c # collapseWhiteSpace cs)\<close>
  by pat_completeness auto
termination
  by (relation \<open>measure length\<close>) (auto simp: less_Suc_eq_le length_dropWhile_le)

definition trim :: \<open>jsstring \<Rightarrow> jsstring\<close> where
  \<open>trim s = rev (dropWhile isWhiteSpace (rev (dropWhile isWhiteSpace s)))\<close>

definition sanitizeFilename :: \<open>jsstring \<Rightarrow> jsstring\<close> where
  \<open>sanitizeFilename filename = trim (collapseWhiteSpace (removeInvalid filename))\<close>

text \<open>
  The normal form of the second step: white space occurs only as a single space, never
  twice in a row.
\<close>

fun collapsed :: \<open>jsstring \<Rightarrow> bool\<close> where
  \<open>collapsed [] = True\<close>
| \<open>collapsed [c] = (isWhiteSpace c \<longrightarrow> c = 0x20)\<close>
| \<open>collapsed (c # d # r) =
     ((isWhiteSpace c \<longrightarrow> c = 0x20 \<and> \<not> isWhiteSpace d) \<and> collapsed (d # r))\<close>

lemma space_isWhiteSpace: \<open>isWhiteSpace 0x20\<close>
  by (simp add: isWhiteSpace_def whiteSpaceUnits_def)

lemma space_not_invalid: \<open>0x20 \<notin> set invalidChars\<close>
  by (simp add: invalidChars_def js_def)

lemma set_collapseWhiteSpace: \<open>set (collapseWhiteSpace s) \<subseteq> insert 0x20 (set s)\<close>
proof (induction s rule: collapseWhiteSpace.induct)
  case 1
  show ?case by simp
next
  case (2 c cs)
  have \<open>set (dropWhile isWhiteSpace cs) \<subseteq> set cs\<close>
    by (auto dest: set_dropWhileD)
  with 2 show ?case by auto
qed

lemma set_trim: \<open>set (trim s) \<subseteq> set s\<close>
  by (auto simp: trim_def dest!: set_dropWhileD)

lemma collapsed_Cons:
  \<open>collapsed (c # s) \<longleftrightarrow>
     (isWhiteSpace c \<longrightarrow> c = 0x20 \<and> (s \<noteq> [] \<longrightarrow> \<not> isWhiteSpace (hd s))) \<and> collapsed s\<close>
  by (cases s) auto

lemma collapsed_collapseWhiteSpace: \<open>collapsed (collapseWhiteSpace s)\<close>
proof (induction s rule: collapseWhiteSpace.induct)
  case 1
  show ?case by simp
next
  case (2 c cs)
  show ?case
  proof (cases \<open>isWhiteSpace c\<close>)
    case True
    let ?r = \<open>dropWhile isWhiteSpace cs\<close>
    have \<open>collapseWhiteSpace ?r \<noteq> [] \<Longrightarrow> \<not> isWhiteSpace (hd (collapseWhiteSpace ?r))\<close>
    proof -
      assume ne: \<open>collapseWhiteSpace ?r \<noteq> []\<close>
      then obtain d ds where r: \<open>?r = d # ds\<close> by (cases ?r) auto
      then have \<open>\<not> isWhiteSpace d\<close> using hd_dropWhile [of isWhiteSpace cs] by simp
      then show ?thesis using r by simp
    qed
    with 2 True show ?thesis by (simp add: collapsed_Cons)
  next
    case False
    with 2 show ?thesis by (simp add: collapsed_Cons)
  qed
qed

lemma collapseWhiteSpace_collapsed: \<open>collapsed s \<Longrightarrow> collapseWhiteSpace s = s\<close>
proof (induction s rule: collapsed.induct)
  case 1
  show ?case by simp
next
  case (2 c)
  then show ?case by simp
next
  case (3 c d r)
  then show ?case by auto
qed

lemma collapsed_append: \<open>collapsed (xs @ ys) \<Longrightarrow> collapsed xs \<and> collapsed ys\<close>
proof (induction xs)
  case Nil
  then show ?case by simp
next
  case (Cons x xs)
  then show ?case by (cases xs) (auto simp: collapsed_Cons)
qed

lemma trim_decomp: \<open>\<exists>a b. s = a @ trim s @ b\<close>
proof -
  let ?t = \<open>dropWhile isWhiteSpace s\<close>
  have \<open>s = takeWhile isWhiteSpace s @ ?t\<close> by simp
  moreover have \<open>?t = trim s @ rev (takeWhile isWhiteSpace (rev ?t))\<close>
    unfolding trim_def by (metis rev_append rev_rev_ident takeWhile_dropWhile_id)
  ultimately show ?thesis by metis
qed

lemma collapsed_trim: \<open>collapsed s \<Longrightarrow> collapsed (trim s)\<close>
  by (metis trim_decomp collapsed_append)

lemma trim_ends:
  assumes \<open>trim s \<noteq> []\<close>
  shows \<open>\<not> isWhiteSpace (hd (trim s))\<close> and \<open>\<not> isWhiteSpace (last (trim s))\<close>
proof -
  let ?t = \<open>dropWhile isWhiteSpace s\<close>
  let ?u = \<open>dropWhile isWhiteSpace (rev ?t)\<close>
  have u: \<open>?u \<noteq> []\<close> using assms by (simp add: trim_def)
  then have t: \<open>?t \<noteq> []\<close> by (metis dropWhile.simps(1) rev.simps(1))
  have \<open>last (trim s) = hd ?u\<close> using u by (simp add: trim_def last_rev)
  then show \<open>\<not> isWhiteSpace (last (trim s))\<close> using u hd_dropWhile by metis
  have \<open>rev ?t = takeWhile isWhiteSpace (rev ?t) @ ?u\<close> by simp
  then have \<open>last (rev ?t) = last ?u\<close> using u by (metis last_appendR)
  then have \<open>hd (trim s) = hd ?t\<close> using u t by (simp add: trim_def hd_rev last_rev)
  then show \<open>\<not> isWhiteSpace (hd (trim s))\<close> using t hd_dropWhile by metis
qed

lemma trim_noop:
  assumes \<open>s \<noteq> [] \<Longrightarrow> \<not> isWhiteSpace (hd s) \<and> \<not> isWhiteSpace (last s)\<close>
  shows \<open>trim s = s\<close>
proof (cases \<open>s = []\<close>)
  case True
  then show ?thesis by (simp add: trim_def)
next
  case False
  with assms have h: \<open>\<not> isWhiteSpace (hd s)\<close> and l: \<open>\<not> isWhiteSpace (last s)\<close> by auto
  from False h have \<open>dropWhile isWhiteSpace s = s\<close> by (cases s) auto
  moreover from False l have \<open>dropWhile isWhiteSpace (rev s) = rev s\<close>
    by (cases \<open>rev s\<close>) (auto simp: last_rev [symmetric] hd_rev)
  ultimately show ?thesis by (simp add: trim_def)
qed

lemma collapsed_nth:
  \<open>collapsed s \<Longrightarrow> Suc i < length s \<Longrightarrow> \<not> (isWhiteSpace (s ! i) \<and> isWhiteSpace (s ! Suc i))\<close>
proof (induction s arbitrary: i rule: collapsed.induct)
  case 1
  then show ?case by simp
next
  case (2 c)
  then show ?case by simp
next
  case (3 c d r)
  then show ?case by (cases i) auto
qed

lemma collapsed_set: \<open>collapsed s \<Longrightarrow> c \<in> set s \<Longrightarrow> isWhiteSpace c \<Longrightarrow> c = 0x20\<close>
  by (induction s rule: collapsed.induct) auto


section \<open>Regular expressions\<close>

text \<open>
  The script's regular expressions are sequences of literal text, single character
  classes with the quantifiers \<^verbatim>\<open>? * + *? +?\<close>, and capturing parentheses
  around such sequences: no alternation, no quantified group, no back-reference. A
  pattern is therefore a list of atoms, matched by the backtracking search of
  ECMAScript: a greedy quantifier tries the longest repetition first, a lazy one the
  shortest, and the first alternative whose continuation matches wins.
\<close>

datatype cset = OneOf \<open>jschar list\<close> | WhiteSpace | NonWhiteSpace | Digits | LineTerminators

datatype cclass = Class \<open>cset list\<close> | NotClass \<open>cset list\<close>

fun inSet :: \<open>cset \<Rightarrow> jschar \<Rightarrow> bool\<close> where
  \<open>inSet (OneOf cs) c = (c \<in> set cs)\<close>
| \<open>inSet WhiteSpace c = isWhiteSpace c\<close>
| \<open>inSet NonWhiteSpace c = (\<not> isWhiteSpace c)\<close>
| \<open>inSet Digits c = (0x30 \<le> c \<and> c \<le> 0x39)\<close>
| \<open>inSet LineTerminators c = (c \<in> set [0x000A, 0x000D, 0x2028, 0x2029])\<close>

fun inClass :: \<open>cclass \<Rightarrow> jschar \<Rightarrow> bool\<close> where
  \<open>inClass (Class ss) c = (\<exists>s \<in> set ss. inSet s c)\<close>
| \<open>inClass (NotClass ss) c = (\<not> (\<exists>s \<in> set ss. inSet s c))\<close>

datatype atom =
    Lit jsstring
  | One cclass
  | Opt cclass
  | Star cclass
  | Plus cclass
  | LazyStar cclass
  | LazyPlus cclass
  | GroupOpen
  | GroupClose

type_synonym regex = \<open>atom list\<close>

text \<open>
  \<open>rmatch p s\<close> matches \<open>p\<close> at the start of \<open>s\<close>. It returns the rest of the input
  at every parenthesis it passed, in order, followed by the rest of the input after the
  match.
\<close>

fun rmatch :: \<open>regex \<Rightarrow> jsstring \<Rightarrow> jsstring list option\<close> where
  \<open>rmatch [] s = Some [s]\<close>
| \<open>rmatch (Lit [] # r) s = rmatch r s\<close>
| \<open>rmatch (Lit (a # t) # r) [] = None\<close>
| \<open>rmatch (Lit (a # t) # r) (x # xs) = (if a = x then rmatch (Lit t # r) xs else None)\<close>
| \<open>rmatch (One c # r) [] = None\<close>
| \<open>rmatch (One c # r) (x # xs) = (if inClass c x then rmatch r xs else None)\<close>
| \<open>rmatch (Opt c # r) [] = rmatch r []\<close>
| \<open>rmatch (Opt c # r) (x # xs) =
     (if inClass c x
      then (case rmatch r xs of Some m \<Rightarrow> Some m | None \<Rightarrow> rmatch r (x # xs))
      else rmatch r (x # xs))\<close>
| \<open>rmatch (Star c # r) [] = rmatch r []\<close>
| \<open>rmatch (Star c # r) (x # xs) =
     (if inClass c x
      then (case rmatch (Star c # r) xs of Some m \<Rightarrow> Some m | None \<Rightarrow> rmatch r (x # xs))
      else rmatch r (x # xs))\<close>
| \<open>rmatch (Plus c # r) [] = None\<close>
| \<open>rmatch (Plus c # r) (x # xs) = (if inClass c x then rmatch (Star c # r) xs else None)\<close>
| \<open>rmatch (LazyStar c # r) [] = rmatch r []\<close>
| \<open>rmatch (LazyStar c # r) (x # xs) =
     (case rmatch r (x # xs) of
        Some m \<Rightarrow> Some m
      | None \<Rightarrow> if inClass c x then rmatch (LazyStar c # r) xs else None)\<close>
| \<open>rmatch (LazyPlus c # r) [] = None\<close>
| \<open>rmatch (LazyPlus c # r) (x # xs) =
     (if inClass c x then rmatch (LazyStar c # r) xs else None)\<close>
| \<open>rmatch (GroupOpen # r) s = map_option ((#) s) (rmatch r s)\<close>
| \<open>rmatch (GroupClose # r) s = map_option ((#) s) (rmatch r s)\<close>

text \<open>
  \<^verbatim>\<open>str.match(re)\<close> without the \<^verbatim>\<open>g\<close> flag: the leftmost match, as the
  list of the matched text and the text of each group.
\<close>

fun rsearch :: \<open>regex \<Rightarrow> jsstring \<Rightarrow> (jsstring \<times> jsstring list) option\<close> where
  \<open>rsearch p [] = map_option (Pair []) (rmatch p [])\<close>
| \<open>rsearch p (x # xs) =
     (case rmatch p (x # xs) of Some m \<Rightarrow> Some (x # xs, m) | None \<Rightarrow> rsearch p xs)\<close>

definition between :: \<open>jsstring \<Rightarrow> jsstring \<Rightarrow> jsstring\<close> where
  \<open>between a b = take (length a - length b) a\<close>

fun groups :: \<open>jsstring list \<Rightarrow> jsstring list\<close> where
  \<open>groups (a # b # r) = between a b # groups r\<close>
| \<open>groups r = []\<close>

definition regexMatch :: \<open>regex \<Rightarrow> jsstring \<Rightarrow> jsstring list option\<close> where
  \<open>regexMatch p s =
     map_option (\<lambda>(start, marks). between start (last marks) # groups marks) (rsearch p s)\<close>


lemma rmatch_marks:
  \<open>rmatch p s = Some ms \<Longrightarrow> ms \<noteq> [] \<and> (\<forall>m \<in> set ms. length m \<le> length s)\<close>
proof (induction p s arbitrary: ms rule: rmatch.induct)
  case (8 c r x xs)
  then show ?case by (fastforce split: if_splits option.splits)
next
  case (10 c r x xs)
  then show ?case by (fastforce split: if_splits option.splits)
next
  case (14 c r x xs)
  then show ?case by (fastforce split: if_splits option.splits)
qed (fastforce split: if_splits)+

lemma rsearch_marks:
  \<open>rsearch p s = Some (start, ms) \<Longrightarrow>
     length start \<le> length s \<and> ms \<noteq> [] \<and> (\<forall>m \<in> set ms. length m \<le> length start)\<close>
proof (induction s)
  case Nil
  then show ?case using rmatch_marks [of p \<open>[]\<close>] by auto
next
  case (Cons x xs)
  then show ?case using rmatch_marks [of p \<open>x # xs\<close>] by (auto split: option.splits)
qed

text \<open>
  \<^verbatim>\<open>str.match(re)\<close> with the \<^verbatim>\<open>g\<close> flag: the texts of all matches, each
  search starting where the previous match ended (one code unit further after an empty
  match). The empty list stands for \<^verbatim>\<open>null\<close>.
\<close>

function matchAll :: \<open>regex \<Rightarrow> jsstring \<Rightarrow> jsstring list\<close> where
  \<open>matchAll p s =
     (case rsearch p s of
        None \<Rightarrow> []
      | Some (start, ms) \<Rightarrow>
          if between start (last ms) = [] then
            (case last ms of
               [] \<Rightarrow> [[]]
             | _ # rest \<Rightarrow> [] # matchAll p rest)
          else between start (last ms) # matchAll p (last ms))\<close>
  by pat_completeness auto
termination
proof (relation \<open>measure (\<lambda>(p, s). length s)\<close>)
  show \<open>wf (measure (\<lambda>(p, s). length s))\<close> by simp
next
  fix p s x start ms c rest
  assume \<open>rsearch p s = Some x\<close> \<open>(start, ms) = x\<close> \<open>last ms = c # rest\<close>
  then have m: \<open>length start \<le> length s\<close> \<open>ms \<noteq> []\<close> \<open>\<forall>m \<in> set ms. length m \<le> length start\<close>
    using rsearch_marks [of p s start ms] by auto
  then have \<open>length (last ms) \<le> length start\<close>
    using last_in_set [of ms] by blast
  with m(1) show \<open>((p, rest), (p, s)) \<in> measure (\<lambda>(p, s). length s)\<close>
    using \<open>last ms = c # rest\<close> by simp
next
  fix p s x start ms
  assume a: \<open>rsearch p s = Some x\<close> \<open>(start, ms) = x\<close> \<open>between start (last ms) \<noteq> []\<close>
  then have \<open>length start \<le> length s\<close> using rsearch_marks [of p s start ms] by auto
  moreover have \<open>length (last ms) < length start\<close>
    using a(3) by (simp add: between_def)
  ultimately show \<open>((p, last ms), (p, s)) \<in> measure (\<lambda>(p, s). length s)\<close> by simp
qed

declare matchAll.simps [simp del]

text \<open>
  A match has one entry for the matched text and one for each pair of parentheses, so
  \<^verbatim>\<open>match[k]\<close> is \<open>m ! k\<close> for every group \<open>k\<close> of the pattern.
\<close>

lemma length_rmatch:
  \<open>rmatch p s = Some ms \<Longrightarrow>
     length ms = Suc (length (filter (\<lambda>a. a = GroupOpen \<or> a = GroupClose) p))\<close>
proof (induction p s arbitrary: ms rule: rmatch.induct)
  case (8 c r x xs)
  then show ?case by (fastforce split: if_splits option.splits)
next
  case (10 c r x xs)
  then show ?case by (fastforce split: if_splits option.splits)
next
  case (14 c r x xs)
  then show ?case by (fastforce split: if_splits option.splits)
qed (fastforce split: if_splits)+

lemma length_groups: \<open>length (groups ms) = length ms div 2\<close>
  by (induction ms rule: groups.induct) auto

lemma length_regexMatch:
  assumes \<open>regexMatch p s = Some m\<close>
  shows \<open>length m = Suc (Suc (length (filter (\<lambda>a. a = GroupOpen \<or> a = GroupClose) p)) div 2)\<close>
proof -
  obtain start ms where r: \<open>rsearch p s = Some (start, ms)\<close>
    and m: \<open>m = between start (last ms) # groups ms\<close>
    using assms by (auto simp: regexMatch_def)
  have \<open>\<exists>t. rmatch p t = Some ms\<close>
    using r by (induction s) (auto split: option.splits)
  then show ?thesis using m length_rmatch by (auto simp: length_groups)
qed
section \<open>JSON.parse\<close>

text \<open>
  \<^verbatim>\<open>JSON.parse\<close> after ECMA-404: a lexer and a recursive-descent parser. An
  object keeps its members in source order, repeated keys included. A number keeps its
  literal. \<open>None\<close> is a \<^verbatim>\<open>SyntaxError\<close>.
\<close>

datatype json =
    JNull
  | JBool bool
  | JNumber jsstring
  | JString jsstring
  | JArray \<open>json list\<close>
  | JObject \<open>(jsstring \<times> json) list\<close>

datatype token =
    TLBrace | TRBrace | TLBracket | TRBracket | TColon | TComma
  | TString jsstring | TNumber jsstring | TTrue | TFalse | TNull

definition isDigit :: \<open>jschar \<Rightarrow> bool\<close> where
  \<open>isDigit c = (0x30 \<le> c \<and> c \<le> 0x39)\<close>

definition hexValue :: \<open>jschar \<Rightarrow> jschar option\<close> where
  \<open>hexValue c =
     (if 0x30 \<le> c \<and> c \<le> 0x39 then Some (c - 0x30)
      else if 0x41 \<le> c \<and> c \<le> 0x46 then Some (c - 0x37)
      else if 0x61 \<le> c \<and> c \<le> 0x66 then Some (c - 0x57)
      else None)\<close>

definition hex4 :: \<open>jschar \<Rightarrow> jschar \<Rightarrow> jschar \<Rightarrow> jschar \<Rightarrow> jschar option\<close> where
  \<open>hex4 a b c d =
     (case (hexValue a, hexValue b, hexValue c, hexValue d) of
        (Some p, Some q, Some r, Some s) \<Rightarrow> Some (((p * 16 + q) * 16 + r) * 16 + s)
      | _ \<Rightarrow> None)\<close>

definition escapeUnit :: \<open>jschar \<Rightarrow> jschar option\<close> where
  \<open>escapeUnit e =
     (if e = 0x22 \<or> e = 0x5C \<or> e = 0x2F then Some e
      else if e = 0x62 then Some 0x08
      else if e = 0x66 then Some 0x0C
      else if e = 0x6E then Some 0x0A
      else if e = 0x72 then Some 0x0D
      else if e = 0x74 then Some 0x09
      else None)\<close>

fun lexString :: \<open>jsstring \<Rightarrow> (jsstring \<times> jsstring) option\<close> where
  \<open>lexString [] = None\<close>
| \<open>lexString (c # cs) =
     (if c = 0x22 then Some ([], cs)
      else if c = 0x5C then
        (case cs of
           [] \<Rightarrow> None
         | e # es \<Rightarrow>
             if e = 0x75 then
               (case es of
                  a # b # c # d # rest \<Rightarrow>
                    (case hex4 a b c d of
                       None \<Rightarrow> None
                     | Some u \<Rightarrow> map_option (\<lambda>(v, r). (u # v, r)) (lexString rest))
                | _ \<Rightarrow> None)
             else
               (case escapeUnit e of
                  None \<Rightarrow> None
                | Some u \<Rightarrow> map_option (\<lambda>(v, r). (u # v, r)) (lexString es)))
      else if c < 0x20 then None
      else map_option (\<lambda>(v, r). (c # v, r)) (lexString cs))\<close>

definition lexDigits :: \<open>jsstring \<Rightarrow> (jsstring \<times> jsstring) option\<close> where
  \<open>lexDigits s =
     (if takeWhile isDigit s = [] then None
      else Some (takeWhile isDigit s, dropWhile isDigit s))\<close>

definition lexInt :: \<open>jsstring \<Rightarrow> (jsstring \<times> jsstring) option\<close> where
  \<open>lexInt s =
     (case s of
        [] \<Rightarrow> None
      | d # r \<Rightarrow> if d = 0x30 then Some ([d], r) else lexDigits s)\<close>

definition lexFraction :: \<open>jsstring \<Rightarrow> (jsstring \<times> jsstring) option\<close> where
  \<open>lexFraction s =
     (case s of
        [] \<Rightarrow> Some ([], s)
      | d # r \<Rightarrow>
          if d = 0x2E then map_option (\<lambda>(ds, r'). (d # ds, r')) (lexDigits r)
          else Some ([], s))\<close>

definition lexSign :: \<open>jsstring \<Rightarrow> jsstring \<times> jsstring\<close> where
  \<open>lexSign s =
     (case s of
        [] \<Rightarrow> ([], s)
      | d # r \<Rightarrow> if d = 0x2B \<or> d = 0x2D then ([d], r) else ([], s))\<close>

definition lexExponent :: \<open>jsstring \<Rightarrow> (jsstring \<times> jsstring) option\<close> where
  \<open>lexExponent s =
     (case s of
        [] \<Rightarrow> Some ([], s)
      | d # r \<Rightarrow>
          if d = 0x65 \<or> d = 0x45 then
            (case lexSign r of
               (sg, r') \<Rightarrow> map_option (\<lambda>(ds, r''). (d # sg @ ds, r'')) (lexDigits r'))
          else Some ([], s))\<close>

definition lexNumber :: \<open>jsstring \<Rightarrow> (jsstring \<times> jsstring) option\<close> where
  \<open>lexNumber s =
     (case (case s of [] \<Rightarrow> ([], s) | d # r \<Rightarrow> if d = 0x2D then ([d], r) else ([], s)) of
        (sg, s1) \<Rightarrow>
          (case lexInt s1 of
             None \<Rightarrow> None
           | Some (i, s2) \<Rightarrow>
               (case lexFraction s2 of
                  None \<Rightarrow> None
                | Some (f, s3) \<Rightarrow>
                    (case lexExponent s3 of
                       None \<Rightarrow> None
                     | Some (e, s4) \<Rightarrow> Some (sg @ i @ f @ e, s4)))))\<close>

lemma lexString_shorter: \<open>lexString s = Some (v, r) \<Longrightarrow> length r < length s\<close>
proof (induction s arbitrary: v r rule: lexString.induct)
  case 1
  then show ?case by simp
next
  case (2 c cs)
  then show ?case
    by (fastforce split: if_splits list.splits option.splits)
qed

lemma lexDigits_shorter: \<open>lexDigits s = Some (v, r) \<Longrightarrow> length r < length s\<close>
proof -
  assume a: \<open>lexDigits s = Some (v, r)\<close>
  then have \<open>takeWhile isDigit s \<noteq> []\<close> and r: \<open>r = dropWhile isDigit s\<close>
    by (auto simp: lexDigits_def split: if_splits)
  then have \<open>length (takeWhile isDigit s) > 0\<close> by simp
  moreover have \<open>length s = length (takeWhile isDigit s) + length (dropWhile isDigit s)\<close>
    by (metis length_append takeWhile_dropWhile_id)
  ultimately show ?thesis using r by simp
qed

lemma lexNumber_shorter: \<open>lexNumber s = Some (v, r) \<Longrightarrow> length r < length s\<close>
  unfolding lexNumber_def lexInt_def lexFraction_def lexExponent_def lexSign_def
  by (auto split: list.splits if_splits option.splits prod.splits dest!: lexDigits_shorter)

definition isJsonSpace :: \<open>jschar \<Rightarrow> bool\<close> where
  \<open>isJsonSpace c = (c = 0x09 \<or> c = 0x0A \<or> c = 0x0D \<or> c = 0x20)\<close>

function tokenize :: \<open>jsstring \<Rightarrow> token list option\<close> where
  \<open>tokenize [] = Some []\<close>
| \<open>tokenize (c # cs) =
     (if isJsonSpace c then tokenize cs
      else if c = 0x7B then map_option ((#) TLBrace) (tokenize cs)
      else if c = 0x7D then map_option ((#) TRBrace) (tokenize cs)
      else if c = 0x5B then map_option ((#) TLBracket) (tokenize cs)
      else if c = 0x5D then map_option ((#) TRBracket) (tokenize cs)
      else if c = 0x3A then map_option ((#) TColon) (tokenize cs)
      else if c = 0x2C then map_option ((#) TComma) (tokenize cs)
      else if c = 0x22 then
        (case lexString cs of
           None \<Rightarrow> None
         | Some (v, r) \<Rightarrow> map_option ((#) (TString v)) (tokenize r))
      else if c = 0x2D \<or> isDigit c then
        (case lexNumber (c # cs) of
           None \<Rightarrow> None
         | Some (v, r) \<Rightarrow> map_option ((#) (TNumber v)) (tokenize r))
      else if take 4 (c # cs) = js ''true'' then map_option ((#) TTrue) (tokenize (drop 4 (c # cs)))
      else if take 5 (c # cs) = js ''false'' then map_option ((#) TFalse) (tokenize (drop 5 (c # cs)))
      else if take 4 (c # cs) = js ''null'' then map_option ((#) TNull) (tokenize (drop 4 (c # cs)))
      else None)\<close>
  by pat_completeness auto
termination
  by (relation \<open>measure length\<close>)
     (auto dest: lexString_shorter lexNumber_shorter)

text \<open>
  After a nested value the parser goes on with the rest of the tokens. The test that the
  rest is shorter makes the recursion well-founded; \<open>parse_shorter\<close> below shows that
  it never fails.
\<close>

function (sequential) parseValue :: \<open>token list \<Rightarrow> (json \<times> token list) option\<close>
  and parseElements :: \<open>json list \<Rightarrow> token list \<Rightarrow> (json \<times> token list) option\<close>
  and parseMembers :: \<open>(jsstring \<times> json) list \<Rightarrow> token list \<Rightarrow> (json \<times> token list) option\<close>
where
  \<open>parseValue (TNull # r) = Some (JNull, r)\<close>
| \<open>parseValue (TTrue # r) = Some (JBool True, r)\<close>
| \<open>parseValue (TFalse # r) = Some (JBool False, r)\<close>
| \<open>parseValue (TNumber n # r) = Some (JNumber n, r)\<close>
| \<open>parseValue (TString s # r) = Some (JString s, r)\<close>
| \<open>parseValue (TLBracket # TRBracket # r) = Some (JArray [], r)\<close>
| \<open>parseValue (TLBracket # r) =
     (case parseValue r of
        None \<Rightarrow> None
      | Some (v, r') \<Rightarrow> if length r' < length r then parseElements [v] r' else None)\<close>
| \<open>parseValue (TLBrace # TRBrace # r) = Some (JObject [], r)\<close>
| \<open>parseValue (TLBrace # TString k # TColon # r) =
     (case parseValue r of
        None \<Rightarrow> None
      | Some (v, r') \<Rightarrow> if length r' < length r then parseMembers [(k, v)] r' else None)\<close>
| \<open>parseValue _ = None\<close>
| \<open>parseElements acc (TRBracket # r) = Some (JArray (rev acc), r)\<close>
| \<open>parseElements acc (TComma # r) =
     (case parseValue r of
        None \<Rightarrow> None
      | Some (v, r') \<Rightarrow> if length r' < length r then parseElements (v # acc) r' else None)\<close>
| \<open>parseElements acc _ = None\<close>
| \<open>parseMembers acc (TRBrace # r) = Some (JObject (rev acc), r)\<close>
| \<open>parseMembers acc (TComma # TString k # TColon # r) =
     (case parseValue r of
        None \<Rightarrow> None
      | Some (v, r') \<Rightarrow> if length r' < length r then parseMembers ((k, v) # acc) r' else None)\<close>
| \<open>parseMembers acc _ = None\<close>
  by pat_completeness auto
termination
  by (relation \<open>measure (\<lambda>x. case x of Inl ts \<Rightarrow> length ts
                                   | Inr (Inl (_, ts)) \<Rightarrow> length ts
                                   | Inr (Inr (_, ts)) \<Rightarrow> length ts)\<close>) auto

definition JSON_parse :: \<open>jsstring \<Rightarrow> json option\<close> where
  \<open>JSON_parse s =
     (case tokenize s of
        None \<Rightarrow> None
      | Some ts \<Rightarrow> (case parseValue ts of Some (v, []) \<Rightarrow> Some v | _ \<Rightarrow> None))\<close>

lemma parse_shorter:
  \<open>(\<forall>v r. parseValue ts = Some (v, r) \<longrightarrow> length r < length ts)\<close>
  \<open>(\<forall>v r. parseElements es ts' = Some (v, r) \<longrightarrow> length r < length ts')\<close>
  \<open>(\<forall>v r. parseMembers ms ts'' = Some (v, r) \<longrightarrow> length r < length ts'')\<close>
proof (induction ts and es ts' and ms ts'' rule: parseValue_parseElements_parseMembers.induct)
qed (force split: option.splits if_splits)+

section \<open>JavaScript values and string operations\<close>

text \<open>
  The services of the browser and the engine that the script calls and this theory does
  not define: the URL parser, the network, and the arithmetic of IEEE doubles (a JSON
  number is kept as its literal; whether the number is zero and how it prints are the
  engine's). \<open>None\<close> stands for an exception of \<^verbatim>\<open>new URL\<close> and for a rejected
  \<^verbatim>\<open>fetch\<close>. The script sets no timeout on its \<^verbatim>\<open>fetch\<close>:
  \<open>fetchSettles\<close> tells whether the request for a URL ever ends, and
  \<open>fetchFinalUrl\<close> is its outcome when it does.
\<close>

datatype typeErrorKind = NullRead | NotCallable | NotPrimitive

record host =
  urlPathname :: \<open>jsstring \<Rightarrow> jsstring option\<close>
  fetchFinalUrl :: \<open>jsstring \<Rightarrow> jsstring option\<close>
  fetchSettles :: \<open>jsstring \<Rightarrow> bool\<close>
  numberTruthy :: \<open>jsstring \<Rightarrow> bool\<close>
  numberToString :: \<open>jsstring \<Rightarrow> jsstring\<close>
  typeErrorMessage :: \<open>typeErrorKind \<Rightarrow> jsstring\<close>

datatype thrown = Error jsstring | TypeError typeErrorKind

fun messageOf :: \<open>host \<Rightarrow> thrown \<Rightarrow> jsstring\<close> where
  \<open>messageOf h (Error m) = m\<close>
| \<open>messageOf h (TypeError k) = typeErrorMessage h k\<close>

text \<open>
  A value read from parsed JSON is a \<open>json option\<close>: \<open>None\<close> is
  \<^verbatim>\<open>undefined\<close>. \<open>truthy\<close> is ToBoolean.
\<close>

fun truthy :: \<open>host \<Rightarrow> json option \<Rightarrow> bool\<close> where
  \<open>truthy h None = False\<close>
| \<open>truthy h (Some JNull) = False\<close>
| \<open>truthy h (Some (JBool b)) = b\<close>
| \<open>truthy h (Some (JNumber n)) = numberTruthy h n\<close>
| \<open>truthy h (Some (JString s)) = (s \<noteq> [])\<close>
| \<open>truthy h (Some (JArray xs)) = True\<close>
| \<open>truthy h (Some (JObject kvs)) = True\<close>

text \<open>
  \<^verbatim>\<open>v.k\<close> for the property names the script reads (\<^verbatim>\<open>name\<close>,
  \<^verbatim>\<open>src\<close>, \<^verbatim>\<open>tracks\<close>, \<^verbatim>\<open>beats\<close>, \<^verbatim>\<open>user\<close>): none is a
  built-in property of a string, number, boolean, array or plain object, so only an own
  property of an object is found, the last one of a repeated key. Reading a property of
  \<^verbatim>\<open>null\<close> throws.
\<close>

fun getProp :: \<open>json \<Rightarrow> jsstring \<Rightarrow> typeErrorKind + json option\<close> where
  \<open>getProp JNull k = Inl NullRead\<close>
| \<open>getProp (JObject kvs) k = Inr (map_of (rev kvs) k)\<close>
| \<open>getProp v k = Inr None\<close>

text \<open>
  ToString of a parsed value, as string concatenation applies it. An array prints its
  elements joined by commas, \<^verbatim>\<open>null\<close> elements as the empty string. A plain
  object prints as \<^verbatim>\<open>[object Object]\<close>, unless it has an own property
  \<^verbatim>\<open>toString\<close>: that is no function, and the conversion throws.
\<close>

fun toStringJs :: \<open>host \<Rightarrow> json \<Rightarrow> typeErrorKind + jsstring\<close>
  and joinJs :: \<open>host \<Rightarrow> json list \<Rightarrow> typeErrorKind + jsstring\<close>
where
  \<open>toStringJs h JNull = Inr (js ''null'')\<close>
| \<open>toStringJs h (JBool b) = Inr (if b then js ''true'' else js ''false'')\<close>
| \<open>toStringJs h (JNumber n) = Inr (numberToString h n)\<close>
| \<open>toStringJs h (JString s) = Inr s\<close>
| \<open>toStringJs h (JArray xs) = joinJs h xs\<close>
| \<open>toStringJs h (JObject kvs) =
     (if js ''toString'' \<in> fst ` set kvs then Inl NotPrimitive else Inr (js ''[object Object]''))\<close>
| \<open>joinJs h [] = Inr []\<close>
| \<open>joinJs h (x # xs) =
     (case (if x = JNull then Inr [] else toStringJs h x) of
        Inl e \<Rightarrow> Inl e
      | Inr a \<Rightarrow>
          if xs = [] then Inr a
          else (case joinJs h xs of Inl e \<Rightarrow> Inl e | Inr b \<Rightarrow> Inr (a @ js '','' @ b)))\<close>

text \<open>\<^verbatim>\<open>base + v\<close> for a string \<open>base\<close>.\<close>

fun plusString :: \<open>host \<Rightarrow> jsstring \<Rightarrow> json option \<Rightarrow> typeErrorKind + jsstring\<close> where
  \<open>plusString h base None = Inr (base @ js ''undefined'')\<close>
| \<open>plusString h base (Some v) =
     (case toStringJs h v of Inl e \<Rightarrow> Inl e | Inr s \<Rightarrow> Inr (base @ s))\<close>

text \<open>
  \<^verbatim>\<open>sanitizeFilename(v)\<close> for a parsed value: \<^verbatim>\<open>v.replace\<close> is a function
  only when \<open>v\<close> is a string.
\<close>

fun sanitizeFilenameJs :: \<open>json \<Rightarrow> typeErrorKind + jsstring\<close> where
  \<open>sanitizeFilenameJs (JString s) = Inr (sanitizeFilename s)\<close>
| \<open>sanitizeFilenameJs JNull = Inl NullRead\<close>
| \<open>sanitizeFilenameJs v = Inl NotCallable\<close>

text \<open>\<^verbatim>\<open>s.includes(t)\<close>.\<close>

fun stringIncludes :: \<open>jsstring \<Rightarrow> jsstring \<Rightarrow> bool\<close> where
  \<open>stringIncludes [] t = (t = [])\<close>
| \<open>stringIncludes (c # cs) t = (take (length t) (c # cs) = t \<or> stringIncludes cs t)\<close>

text \<open>\<^verbatim>\<open>s.replace(t, '')\<close> for a string \<open>t\<close>: the first occurrence is removed.\<close>

fun removeFirst :: \<open>jsstring \<Rightarrow> jsstring \<Rightarrow> jsstring\<close> where
  \<open>removeFirst [] t = []\<close>
| \<open>removeFirst (c # cs) t =
     (if take (length t) (c # cs) = t then drop (length t) (c # cs)
      else c # removeFirst cs t)\<close>

text \<open>\<^verbatim>\<open>s.split(sep)\<close> is \<open>split sep s\<close>.\<close>

function split :: \<open>jsstring \<Rightarrow> jsstring \<Rightarrow> jsstring list\<close> where
  \<open>split [] s = map (\<lambda>c. [c]) s\<close>
| \<open>split (a # sep) [] = [[]]\<close>
| \<open>split (a # sep) (c # cs) =
     (if take (length (a # sep)) (c # cs) = a # sep
      then [] # split (a # sep) (drop (length (a # sep)) (c # cs))
      else (case split (a # sep) cs of
              [] \<Rightarrow> [[c]]
            | p # ps \<Rightarrow> (c # p) # ps))\<close>
  by pat_completeness auto
termination
  by (relation \<open>measure (\<lambda>(sep, s). length s)\<close>) auto

text \<open>The decimal digits of a natural number, as a template literal prints a length.\<close>

fun showNat :: \<open>nat \<Rightarrow> jsstring\<close> where
  \<open>showNat n =
     (if n < 10 then [0x30 + of_nat n]
      else showNat (n div 10) @ [0x30 + of_nat (n mod 10)])\<close>

declare showNat.simps [simp del]

section \<open>The page and the extraction\<close>

text \<open>
  What the content script reads of the page, taken after the page has loaded and the
  settle delay has passed: \<^verbatim>\<open>window.location.href\<close>, \<^verbatim>\<open>document.title\<close>,
  \<^verbatim>\<open>document.documentElement.outerHTML\<close>, and the elements its selectors find, in
  document order. \<open>metaArtist\<close> is the first \<^verbatim>\<open>meta\<close> element of the artist
  selector with its \<^verbatim>\<open>content\<close> attribute (\<open>None\<close>: no such element,
  \<open>Some None\<close>: no such attribute); \<open>firstH1\<close> is the text of the first
  \<^verbatim>\<open>h1\<close>; \<open>playerInfoElements\<close> are the values of the
  \<^verbatim>\<open>data-player-info\<close> attributes. \<open>loadCompletes\<close> tells whether the
  promise of \<^verbatim>\<open>waitForPageLoad\<close> is ever resolved: the document is complete
  when the request arrives, or its \<^verbatim>\<open>load\<close> event fires later.
\<close>

record scriptElement =
  textContent :: jsstring
  innerHTML :: jsstring

record audioElement =
  srcProperty :: \<open>jsstring option\<close>
  dataSrc :: \<open>jsstring option\<close>
  dataTrackSrc :: \<open>jsstring option\<close>

record document =
  href :: jsstring
  title :: jsstring
  outerHTML :: jsstring
  metaArtist :: \<open>jsstring option option\<close>
  scripts :: \<open>scriptElement list\<close>
  firstH1 :: \<open>jsstring option\<close>
  audioElements :: \<open>audioElement list\<close>
  playerInfoElements :: \<open>jsstring list\<close>
  loadCompletes :: bool

datatype track = Track (name: jsstring) (url: jsstring) (trackArtist: jsstring)

datatype extraction =
  Extraction (extractedTracks: \<open>track list\<close>) (extractedArtist: jsstring) (artistFolder: bool)

datatype envelope = Success extraction | Failure jsstring

text \<open>The intermediate \<^verbatim>\<open>{name, src}\<close> of the single-track cascade.\<close>

datatype trackInfo = TrackInfo json \<open>json option\<close>

text \<open>
  The lines the script logs when it starts a locator strategy
  (\<^verbatim>\<open>Method 1\<close> to \<^verbatim>\<open>Method 4\<close>): the trace of the strategies that started.
\<close>

datatype strategy = Method1 | Method2 | Method3 | Method4

subsection \<open>The patterns of the script\<close>

definition whiteSpaces :: atom where
  \<open>whiteSpaces = Star (Class [WhiteSpace])\<close>

definition quotes :: cset where
  \<open>quotes = OneOf (js ''\'"'')\<close>

definition titlePattern :: regex where
  \<comment> \<open>\<^verbatim>\<open>/(.+?)\s*[-\u2013\u2014]\s*(.+)/\<close>\<close>
  \<open>titlePattern =
     [GroupOpen, LazyPlus (NotClass [LineTerminators]), GroupClose, whiteSpaces,
      One (Class [OneOf [0x2D, 0x2013, 0x2014]]), whiteSpaces,
      GroupOpen, Plus (NotClass [LineTerminators]), GroupClose]\<close>

definition awsPattern :: regex where
  \<comment> \<open>\<^verbatim>\<open>/var AWS_BASE_URL\s*=\s*['"]([^'"]+)['"]/\<close>\<close>
  \<open>awsPattern =
     [Lit (js ''var AWS_BASE_URL''), whiteSpaces, Lit (js ''=''), whiteSpaces,
      One (Class [quotes]), GroupOpen, Plus (NotClass [quotes]), GroupClose,
      One (Class [quotes])]\<close>

definition playerInfoPattern :: regex where
  \<comment> \<open>\<^verbatim>\<open>/data-player-info=['"]([^'"]+)['"]/\<close>\<close>
  \<open>playerInfoPattern =
     [Lit (js ''data-player-info=''), One (Class [quotes]),
      GroupOpen, Plus (NotClass [quotes]), GroupClose, One (Class [quotes])]\<close>

definition keyString :: \<open>string \<Rightarrow> regex\<close> where
  \<comment> \<open>\<^verbatim>\<open>"key"\s*:\s*"([^"]+)"\<close>\<close>
  \<open>keyString k =
     [Lit (js (''"'' @ k @ ''"'')), whiteSpaces, Lit (js '':''), whiteSpaces, Lit (js ''"''),
      GroupOpen, Plus (NotClass [OneOf (js ''"'')]), GroupClose, Lit (js ''"'')]\<close>

definition anything :: atom where
  \<comment> \<open>\<^verbatim>\<open>[\s\S]*?\<close>\<close>
  \<open>anything = LazyStar (Class [WhiteSpace, NonWhiteSpace])\<close>

definition trackPatterns :: \<open>regex list\<close> where
  \<open>trackPatterns =
     [keyString ''name'' @ [anything] @ keyString ''src'',
      keyString ''title'' @ [anything] @ keyString ''url'',
      keyString ''trackName'' @ [anything] @ keyString ''trackSrc'',
      [Lit (js ''window.track''), whiteSpaces, Lit (js ''=''), whiteSpaces, Lit (js ''{''),
       anything] @ keyString ''name'' @ [anything] @ keyString ''src'']\<close>

definition trackIdPattern :: regex where
  \<comment> \<open>\<^verbatim>\<open>/\/t\/(\d+)/\<close>\<close>
  \<open>trackIdPattern = [Lit (js ''/t/''), GroupOpen, Plus (Class [Digits]), GroupClose]\<close>

definition mp3Pattern :: regex where
  \<comment> \<open>\<^verbatim>\<open>/https?:\/\/[^"'\s]+\.mp3/g\<close>\<close>
  \<open>mp3Pattern =
     [Lit (js ''http''), Opt (Class [OneOf (js ''s'')]), Lit (js ''://''),
      Plus (NotClass [quotes, WhiteSpace]), Lit (js ''.mp3'')]\<close>

definition braced :: \<open>regex\<close> where
  \<comment> \<open>\<^verbatim>\<open>({.+?})\<close> with the \<^verbatim>\<open>s\<close> flag: the dot matches every code unit\<close>
  \<open>braced = [GroupOpen, Lit (js ''{''), LazyPlus (NotClass []), Lit (js ''}''), GroupClose]\<close>

definition bracketed :: \<open>regex\<close> where
  \<comment> \<open>\<^verbatim>\<open>(\[.+?\])\<close> with the \<^verbatim>\<open>s\<close> flag\<close>
  \<open>bracketed = [GroupOpen, Lit (js ''[''), LazyPlus (NotClass []), Lit (js '']''), GroupClose]\<close>

definition jsTrackPatterns :: \<open>regex list\<close> where
  \<open>jsTrackPatterns =
     [[Lit (js ''window.__INITIAL_STATE__''), whiteSpaces, Lit (js ''=''), whiteSpaces]
        @ braced @ [Lit (js '';'')],
      [Lit (js ''window.__PRELOADED_STATE__''), whiteSpaces, Lit (js ''=''), whiteSpaces]
        @ braced @ [Lit (js '';'')],
      [Lit (js ''"tracks":''), whiteSpaces] @ bracketed,
      [Lit (js ''"beats":''), whiteSpaces] @ bracketed,
      [Lit (js ''var''), Plus (Class [WhiteSpace]), Lit (js ''tracks''), whiteSpaces,
       Lit (js ''=''), whiteSpaces] @ bracketed @ [Lit (js '';'')],
      [Lit (js ''const''), Plus (Class [WhiteSpace]), Lit (js ''tracks''), whiteSpaces,
       Lit (js ''=''), whiteSpaces] @ bracketed @ [Lit (js '';'')]]\<close>

subsection \<open>Helpers of the script\<close>

definition followRedirect :: \<open>host \<Rightarrow> jsstring \<Rightarrow> thrown + jsstring\<close> where
  \<open>followRedirect h shortUrl =
     (case fetchFinalUrl h shortUrl of
        None \<Rightarrow> Inl (Error (js ''Could not resolve short URL''))
      | Some u \<Rightarrow> Inr u)\<close>

definition extractArtistFromUrl :: \<open>host \<Rightarrow> jsstring \<Rightarrow> jsstring option\<close> where
  \<open>extractArtistFromUrl h u =
     (case urlPathname h u of
        None \<Rightarrow> None
      | Some pathname \<Rightarrow>
          (case filter (\<lambda>part. part \<noteq> []) (split (js ''/'') pathname) of
             [] \<Rightarrow> None
           | part # _ \<Rightarrow> Some part))\<close>

definition extractAwsBaseUrl :: \<open>jsstring \<Rightarrow> jsstring option\<close> where
  \<open>extractAwsBaseUrl html =
     (case regexMatch awsPattern html of None \<Rightarrow> None | Some m \<Rightarrow> Some (m ! 1))\<close>

definition extractTrackInfo :: \<open>host \<Rightarrow> jsstring \<Rightarrow> trackInfo option\<close> where
  \<open>extractTrackInfo h html =
     (case regexMatch playerInfoPattern html of
        None \<Rightarrow> None
      | Some m \<Rightarrow>
          (case JSON_parse (m ! 1) of
             None \<Rightarrow> None
           | Some data \<Rightarrow>
               (case getProp data (js ''name'') of
                  Inl e \<Rightarrow> None
                | Inr nm \<Rightarrow>
                    (case getProp data (js ''src'') of
                       Inl e \<Rightarrow> None
                     | Inr sr \<Rightarrow>
                         Some (TrackInfo
                           (case nm of
                              Some v \<Rightarrow> if truthy h nm then v else JString (js ''Unknown Track'')
                            | None \<Rightarrow> JString (js ''Unknown Track''))
                           sr)))))\<close>

subsection \<open>The artist of a single-track page\<close>

definition truthyString :: \<open>jsstring option \<Rightarrow> bool\<close> where
  \<open>truthyString a = (case a of None \<Rightarrow> False | Some s \<Rightarrow> s \<noteq> [])\<close>

text \<open>
  The fallback runs when the URL gives no artist or gives \<^verbatim>\<open>t\<close>. A title that
  does not match leaves the artist as it was, so \<^verbatim>\<open>t\<close> skips the two later
  fallbacks.
\<close>

definition artistFromPage :: \<open>document \<Rightarrow> jsstring option \<Rightarrow> jsstring\<close> where
  \<open>artistFromPage d artist0 =
     (let a1 = (case regexMatch titlePattern (title d) of
                  Some titleMatch \<Rightarrow> Some (trim (titleMatch ! 2))
                | None \<Rightarrow> artist0);
          a2 = (if \<not> truthyString a1
                then (case metaArtist d of Some content \<Rightarrow> content | None \<Rightarrow> a1)
                else a1)
      in case a2 of
           None \<Rightarrow> js ''Unknown Artist''
         | Some a \<Rightarrow> if a = [] then js ''Unknown Artist'' else a)\<close>

definition resolveArtist :: \<open>host \<Rightarrow> document \<Rightarrow> jsstring \<Rightarrow> jsstring\<close> where
  \<open>resolveArtist h d realUrl =
     (case extractArtistFromUrl h realUrl of
        None \<Rightarrow> artistFromPage d None
      | Some a \<Rightarrow> if a = [] \<or> a = js ''t'' then artistFromPage d (Some a) else a)\<close>

subsection \<open>The locator cascade of a single-track page\<close>

text \<open>Method 2: the script elements in document order, the patterns in their order.\<close>

definition scriptContent :: \<open>scriptElement \<Rightarrow> jsstring\<close> where
  \<open>scriptContent sc = (if textContent sc \<noteq> [] then textContent sc else innerHTML sc)\<close>

fun firstPattern :: \<open>regex list \<Rightarrow> jsstring \<Rightarrow> trackInfo option\<close> where
  \<open>firstPattern [] content = None\<close>
| \<open>firstPattern (pattern # rest) content =
     (case regexMatch pattern content of
        Some m \<Rightarrow> Some (TrackInfo (JString (m ! 1)) (Some (JString (m ! 2))))
      | None \<Rightarrow> firstPattern rest content)\<close>

fun scanScripts :: \<open>scriptElement list \<Rightarrow> trackInfo option\<close> where
  \<open>scanScripts [] = None\<close>
| \<open>scanScripts (sc # rest) =
     (if scriptContent sc = [] then scanScripts rest
      else (case firstPattern trackPatterns (scriptContent sc) of
              Some t \<Rightarrow> Some t
            | None \<Rightarrow> scanScripts rest))\<close>

text \<open>Method 3: a name from the title or the first heading, a source from an element.\<close>

definition pageTrackName :: \<open>document \<Rightarrow> jsstring option\<close> where
  \<open>pageTrackName d =
     (case regexMatch titlePattern (title d) of
        Some titleMatch \<Rightarrow> Some (trim (titleMatch ! 1))
      | None \<Rightarrow> map_option trim (firstH1 d))\<close>

definition orElse :: \<open>jsstring option \<Rightarrow> jsstring option \<Rightarrow> jsstring option\<close> where
  \<comment> \<open>\<^verbatim>\<open>a || b\<close>\<close>
  \<open>orElse a b = (if truthyString a then a else b)\<close>

definition orDefault :: \<open>jsstring option \<Rightarrow> jsstring \<Rightarrow> jsstring\<close> where
  \<comment> \<open>\<^verbatim>\<open>a || 'text'\<close>\<close>
  \<open>orDefault a b = (case a of None \<Rightarrow> b | Some s \<Rightarrow> if s = [] then b else s)\<close>

definition elementSrc :: \<open>audioElement \<Rightarrow> jsstring option\<close> where
  \<open>elementSrc e = orElse (orElse (srcProperty e) (dataSrc e)) (dataTrackSrc e)\<close>

fun scanAudio :: \<open>jsstring \<Rightarrow> jsstring option \<Rightarrow> audioElement list \<Rightarrow> trackInfo option\<close> where
  \<open>scanAudio awsBaseUrl trackName [] = None\<close>
| \<open>scanAudio awsBaseUrl trackName (e # rest) =
     (case elementSrc e of
        None \<Rightarrow> scanAudio awsBaseUrl trackName rest
      | Some src \<Rightarrow>
          if src \<noteq> [] \<and> stringIncludes src (js ''.mp3'')
             \<and> removeFirst src awsBaseUrl \<noteq> src
          then Some (TrackInfo
                 (JString (orDefault trackName (js ''Unknown Track'')))
                 (Some (JString (removeFirst src awsBaseUrl))))
          else scanAudio awsBaseUrl trackName rest)\<close>

definition fromPageElements :: \<open>document \<Rightarrow> jsstring \<Rightarrow> trackInfo option\<close> where
  \<open>fromPageElements d awsBaseUrl = scanAudio awsBaseUrl (pageTrackName d) (audioElements d)\<close>

text \<open>Method 4: a track id in the URL and the first absolute MP3 URL of the HTML.\<close>

definition fromUrlStructure ::
  \<open>document \<Rightarrow> jsstring \<Rightarrow> jsstring \<Rightarrow> jsstring \<Rightarrow> trackInfo option\<close> where
  \<open>fromUrlStructure d html realUrl awsBaseUrl =
     (case regexMatch trackIdPattern realUrl of
        None \<Rightarrow> None
      | Some trackIdMatch \<Rightarrow>
          (case matchAll mp3Pattern html of
             [] \<Rightarrow> None
           | mp3Url # _ \<Rightarrow>
               Some (TrackInfo
                 (JString
                    (case split (js '' - '') (title d) of
                       [] \<Rightarrow> js ''Track '' @ trackIdMatch ! 1
                     | t # _ \<Rightarrow> orDefault (Some t) (js ''Track '' @ trackIdMatch ! 1)))
                 (Some (JString (removeFirst mp3Url awsBaseUrl))))))\<close>

definition locateSingleTrack ::
  \<open>host \<Rightarrow> document \<Rightarrow> jsstring \<Rightarrow> jsstring \<Rightarrow> jsstring \<Rightarrow> strategy list \<times> trackInfo option\<close>
where
  \<open>locateSingleTrack h d html realUrl awsBaseUrl =
     (case extractTrackInfo h html of
        Some t \<Rightarrow> ([Method1], Some t)
      | None \<Rightarrow>
          (case scanScripts (scripts d) of
             Some t \<Rightarrow> ([Method1, Method2], Some t)
           | None \<Rightarrow>
               (case fromPageElements d awsBaseUrl of
                  Some t \<Rightarrow> ([Method1, Method2, Method3], Some t)
                | None \<Rightarrow>
                    ([Method1, Method2, Method3, Method4],
                     fromUrlStructure d html realUrl awsBaseUrl))))\<close>

definition singleAwsError :: jsstring where
  \<open>singleAwsError =
     js ''Could not find AWS base URL on the page. Make sure you are on a Traktrain track page.''\<close>

definition trackNotFoundError :: jsstring where
  \<open>trackNotFoundError =
     js ''Could not extract track information from the page. This might be a different type of Traktrain page or the page structure has changed.''\<close>

definition extractSingleBeat ::
  \<open>host \<Rightarrow> document \<Rightarrow> jsstring \<Rightarrow> bool \<Rightarrow> strategy list \<times> (thrown + extraction)\<close>
where
  \<open>extractSingleBeat h d u createArtistFolder =
     (case (if stringIncludes u (js ''traktra.in/t/'') then followRedirect h u else Inr u) of
        Inl e \<Rightarrow> ([], Inl e)
      | Inr realUrl \<Rightarrow>
          (let artist = resolveArtist h d realUrl; html = outerHTML d in
           case extractAwsBaseUrl html of
             None \<Rightarrow> ([], Inl (Error singleAwsError))
           | Some awsBaseUrl \<Rightarrow>
               if awsBaseUrl = [] then ([], Inl (Error singleAwsError))
               else
                 (case locateSingleTrack h d html realUrl awsBaseUrl of
                    (started, None) \<Rightarrow> (started, Inl (Error trackNotFoundError))
                  | (started, Some (TrackInfo nm sr)) \<Rightarrow>
                      (started,
                       case plusString h awsBaseUrl sr of
                         Inl k \<Rightarrow> Inl (TypeError k)
                       | Inr downloadUrl \<Rightarrow>
                           (case sanitizeFilenameJs nm of
                              Inl k \<Rightarrow> Inl (TypeError k)
                            | Inr n \<Rightarrow>
                                Inr (Extraction [Track n downloadUrl artist] artist
                                       createArtistFolder))))))\<close>

subsection \<open>The locator cascade of a profile page\<close>

text \<open>
  One parsed descriptor: \<open>None\<close> when reading or converting it throws (the enclosing
  \<^verbatim>\<open>try\<close> catches and logs), \<open>Some None\<close> when \<^verbatim>\<open>src\<close> or
  \<^verbatim>\<open>name\<close> is falsy, else the track that is pushed.
\<close>

definition makeTrack :: \<open>host \<Rightarrow> jsstring \<Rightarrow> jsstring \<Rightarrow> json \<Rightarrow> track option option\<close> where
  \<open>makeTrack h awsBaseUrl artist trackData =
     (case getProp trackData (js ''src'') of
        Inl e \<Rightarrow> None
      | Inr sr \<Rightarrow>
          (case getProp trackData (js ''name'') of
             Inl e \<Rightarrow> None
           | Inr None \<Rightarrow> Some None
           | Inr (Some nm) \<Rightarrow>
               if truthy h sr \<and> truthy h (Some nm) then
                 (case plusString h awsBaseUrl sr of
                    Inl e \<Rightarrow> None
                  | Inr fullUrl \<Rightarrow>
                      (case sanitizeFilenameJs nm of
                         Inl e \<Rightarrow> None
                       | Inr n \<Rightarrow> Some (Some (Track n fullUrl artist))))
               else Some None))\<close>

text \<open>Method 1: every element with the attribute, each in its own \<^verbatim>\<open>try\<close>.\<close>

fun scanElements ::
  \<open>host \<Rightarrow> jsstring \<Rightarrow> jsstring \<Rightarrow> jsstring list \<Rightarrow> track list \<Rightarrow> track list\<close> where
  \<open>scanElements h awsBaseUrl artist [] tracks = tracks\<close>
| \<open>scanElements h awsBaseUrl artist (playerInfo # rest) tracks =
     (if playerInfo = [] then scanElements h awsBaseUrl artist rest tracks
      else
        (case JSON_parse playerInfo of
           None \<Rightarrow> scanElements h awsBaseUrl artist rest tracks
         | Some trackData \<Rightarrow>
             (case makeTrack h awsBaseUrl artist trackData of
                Some (Some t) \<Rightarrow> scanElements h awsBaseUrl artist rest (tracks @ [t])
              | _ \<Rightarrow> scanElements h awsBaseUrl artist rest tracks)))\<close>

text \<open>
  Method 2. The candidate list is chosen by an \<^verbatim>\<open>if\<close> chain on truthiness;
  \<open>None\<close> when a property read throws.
\<close>

definition pickTrackArray :: \<open>host \<Rightarrow> json \<Rightarrow> json option\<close> where
  \<open>pickTrackArray h data =
     (case data of
        JArray xs \<Rightarrow> Some data
      | _ \<Rightarrow>
          (case getProp data (js ''tracks'') of
             Inl e \<Rightarrow> None
           | Inr t \<Rightarrow>
               if truthy h t then t
               else
                 (case getProp data (js ''beats'') of
                    Inl e \<Rightarrow> None
                  | Inr b \<Rightarrow>
                      if truthy h b then b
                      else
                        (case getProp data (js ''user'') of
                           Inl e \<Rightarrow> None
                         | Inr None \<Rightarrow> Some (JArray [])
                         | Inr (Some user) \<Rightarrow>
                             if truthy h (Some user) then
                               (case getProp user (js ''tracks'') of
                                  Inl e \<Rightarrow> None
                                | Inr ut \<Rightarrow> if truthy h ut then ut else Some (JArray []))
                             else Some (JArray [])))))\<close>

text \<open>
  The \<^verbatim>\<open>for ... of\<close> loop over the candidate: the tracks pushed, and whether the
  loop threw. Pushed tracks stay when a later element throws.
\<close>

fun pushTracks ::
  \<open>host \<Rightarrow> jsstring \<Rightarrow> jsstring \<Rightarrow> json list \<Rightarrow> track list \<Rightarrow> track list \<times> bool\<close> where
  \<open>pushTracks h awsBaseUrl artist [] tracks = (tracks, False)\<close>
| \<open>pushTracks h awsBaseUrl artist (x # xs) tracks =
     (case makeTrack h awsBaseUrl artist x of
        None \<Rightarrow> (tracks, True)
      | Some None \<Rightarrow> pushTracks h awsBaseUrl artist xs tracks
      | Some (Some t) \<Rightarrow> pushTracks h awsBaseUrl artist xs (tracks @ [t]))\<close>

fun iterateTracks ::
  \<open>host \<Rightarrow> jsstring \<Rightarrow> jsstring \<Rightarrow> json \<Rightarrow> track list \<Rightarrow> track list \<times> bool\<close> where
  \<open>iterateTracks h awsBaseUrl artist (JArray xs) tracks = pushTracks h awsBaseUrl artist xs tracks\<close>
| \<open>iterateTracks h awsBaseUrl artist (JString s) tracks = (tracks, False)\<close>
| \<open>iterateTracks h awsBaseUrl artist v tracks = (tracks, True)\<close>

fun scanStatePatterns ::
  \<open>host \<Rightarrow> jsstring \<Rightarrow> jsstring \<Rightarrow> jsstring \<Rightarrow> regex list \<Rightarrow> track list \<Rightarrow> track list\<close> where
  \<open>scanStatePatterns h awsBaseUrl artist html [] tracks = tracks\<close>
| \<open>scanStatePatterns h awsBaseUrl artist html (pattern # rest) tracks =
     (case regexMatch pattern html of
        None \<Rightarrow> scanStatePatterns h awsBaseUrl artist html rest tracks
      | Some m \<Rightarrow>
          (case JSON_parse (m ! 1) of
             None \<Rightarrow> scanStatePatterns h awsBaseUrl artist html rest tracks
           | Some data \<Rightarrow>
               (case pickTrackArray h data of
                  None \<Rightarrow> scanStatePatterns h awsBaseUrl artist html rest tracks
                | Some trackArray \<Rightarrow>
                    (case iterateTracks h awsBaseUrl artist trackArray tracks of
                       (tracks', threw) \<Rightarrow>
                         if \<not> threw \<and> tracks' \<noteq> [] then tracks'
                         else scanStatePatterns h awsBaseUrl artist html rest tracks'))))\<close>

text \<open>Method 3: the attribute found in the HTML text by a global match.\<close>

fun scanMatches ::
  \<open>host \<Rightarrow> jsstring \<Rightarrow> jsstring \<Rightarrow> jsstring list \<Rightarrow> track list \<Rightarrow> track list\<close> where
  \<open>scanMatches h awsBaseUrl artist [] tracks = tracks\<close>
| \<open>scanMatches h awsBaseUrl artist (mt # rest) tracks =
     (case regexMatch playerInfoPattern mt of
        None \<Rightarrow> scanMatches h awsBaseUrl artist rest tracks
      | Some jsonMatch \<Rightarrow>
          (case JSON_parse (jsonMatch ! 1) of
             None \<Rightarrow> scanMatches h awsBaseUrl artist rest tracks
           | Some trackData \<Rightarrow>
               (case makeTrack h awsBaseUrl artist trackData of
                  Some (Some t) \<Rightarrow> scanMatches h awsBaseUrl artist rest (tracks @ [t])
                | _ \<Rightarrow> scanMatches h awsBaseUrl artist rest tracks)))\<close>

definition artistError :: jsstring where
  \<open>artistError = js ''Could not extract artist name from URL''\<close>

definition profileAwsError :: jsstring where
  \<open>profileAwsError =
     js ''Could not find AWS base URL on the page. Make sure you are on a Traktrain page.''\<close>

definition noTracksError :: \<open>jsstring \<Rightarrow> jsstring \<Rightarrow> nat \<Rightarrow> jsstring\<close> where
  \<open>noTracksError u awsBaseUrl n =
     js ''No tracks found on this ''
     @ (if stringIncludes u (js ''/'') \<and> length (split (js ''/'') u) > 4
        then js ''individual track page'' else js ''profile page'')
     @ js ''. Make sure the page has loaded completely and try again. Debug info: AWS URL ''
     @ (if awsBaseUrl \<noteq> [] then js ''found'' else js ''missing'')
     @ js '', data-player-info elements: '' @ showNat n\<close>

definition locateAllTracks ::
  \<open>host \<Rightarrow> document \<Rightarrow> jsstring \<Rightarrow> jsstring \<Rightarrow> jsstring \<Rightarrow> strategy list \<times> track list\<close>
where
  \<open>locateAllTracks h d html awsBaseUrl artist =
     (let t1 = scanElements h awsBaseUrl artist (playerInfoElements d) [] in
      if t1 \<noteq> [] then ([Method1], t1)
      else
        (let t2 = scanStatePatterns h awsBaseUrl artist html jsTrackPatterns t1 in
         if t2 \<noteq> [] then ([Method1, Method2], t2)
         else ([Method1, Method2, Method3],
               scanMatches h awsBaseUrl artist (matchAll playerInfoPattern html) t2)))\<close>

definition extractProfileBeats ::
  \<open>host \<Rightarrow> document \<Rightarrow> jsstring \<Rightarrow> bool \<Rightarrow> strategy list \<times> (thrown + extraction)\<close>
where
  \<open>extractProfileBeats h d u createArtistFolder =
     (case extractArtistFromUrl h u of
        None \<Rightarrow> ([], Inl (Error artistError))
      | Some artist \<Rightarrow>
          if artist = [] then ([], Inl (Error artistError))
          else
            (let html = outerHTML d in
             case extractAwsBaseUrl html of
               None \<Rightarrow> ([], Inl (Error profileAwsError))
             | Some awsBaseUrl \<Rightarrow>
                 if awsBaseUrl = [] then ([], Inl (Error profileAwsError))
                 else
                   (case locateAllTracks h d html awsBaseUrl artist of
                      (started, tracks) \<Rightarrow>
                        if tracks = []
                        then (started, Inl (Error (noTracksError u awsBaseUrl
                                                 (length (playerInfoElements d)))))
                        else (started, Inr (Extraction tracks artist createArtistFolder)))))\<close>

subsection \<open>The message handler\<close>

text \<open>
  \<^verbatim>\<open>handleDataExtraction\<close> wraps the extraction in \<^verbatim>\<open>try\<close>/\<^verbatim>\<open>catch\<close>:
  whatever is thrown becomes a failure envelope with the error's message. This is the
  value of the promise once the awaited promises have settled.
\<close>

definition handleDataExtraction ::
  \<open>host \<Rightarrow> document \<Rightarrow> json option \<Rightarrow> bool \<Rightarrow> strategy list \<times> envelope\<close> where
  \<open>handleDataExtraction h d requestType createArtistFolder =
     (case (if requestType = Some (JString (js ''single''))
            then extractSingleBeat h d (href d) createArtistFolder
            else if requestType = Some (JString (js ''profile''))
            then extractProfileBeats h d (href d) createArtistFolder
            else ([], Inl (Error (js ''Invalid extraction type'')))) of
        (started, Inl e) \<Rightarrow> (started, Failure (messageOf h e))
      | (started, Inr x) \<Rightarrow> (started, Success x))\<close>

text \<open>
  The promise itself. The function awaits \<^verbatim>\<open>waitForPageLoad()\<close>, which is
  resolved only by the \<^verbatim>\<open>load\<close> event when the document is not complete, then a
  timer of one second, and, for a single-track request on a short link, the
  \<^verbatim>\<open>fetch\<close> of \<^verbatim>\<open>followRedirect\<close>. \<open>None\<close>: the promise stays
  pending.
\<close>

definition awaitsSettle :: \<open>host \<Rightarrow> document \<Rightarrow> json option \<Rightarrow> bool\<close> where
  \<open>awaitsSettle h d requestType =
     (loadCompletes d
      \<and> (if requestType = Some (JString (js ''single''))
             \<and> stringIncludes (href d) (js ''traktra.in/t/'')
          then fetchSettles h (href d) else True))\<close>

definition handleDataExtractionPromise ::
  \<open>host \<Rightarrow> document \<Rightarrow> json option \<Rightarrow> bool \<Rightarrow> (strategy list \<times> envelope) option\<close> where
  \<open>handleDataExtractionPromise h d requestType createArtistFolder =
     (if awaitsSettle h d requestType
      then Some (handleDataExtraction h d requestType createArtistFolder)
      else None)\<close>

record request =
  action :: \<open>json option\<close>
  extractionType :: \<open>json option\<close>
  createArtistFolder :: bool

text \<open>
  The listener answers only \<^verbatim>\<open>extractData\<close> requests, with the value of the
  promise; \<open>None\<close> is no response.
\<close>

definition onMessage :: \<open>host \<Rightarrow> document \<Rightarrow> request \<Rightarrow> envelope option\<close> where
  \<open>onMessage h d req =
     (if action req = Some (JString (js ''extractData''))
      then map_option snd
             (handleDataExtractionPromise h d (extractionType req) (createArtistFolder req))
      else None)\<close>

subsection \<open>Absolute URLs\<close>




section \<open>Example pages\<close>

text \<open>
  A host and pages for the concrete evaluations below. The host parses three URLs of
  the site and rejects every \<^verbatim>\<open>fetch\<close>; the pages hold no JSON number, so the
  host's number functions are never called. Every page has finished loading.
\<close>

definition exampleHost :: host where
  \<open>exampleHost =
     \<lparr>urlPathname = map_of
        [(js ''https://traktrain.com/t/1377013'', js ''/t/1377013''),
         (js ''https://traktrain.com/someartist'', js ''/someartist''),
         (js ''https://traktrain.com/'', js ''/'')],
      fetchFinalUrl = (\<lambda>u. None),
      fetchSettles = (\<lambda>u. True),
      numberTruthy = (\<lambda>n. True),
      numberToString = (\<lambda>n. n),
      typeErrorMessage = (\<lambda>k. js ''TypeError'')\<rparr>\<close>

definition pageWithoutBase :: document where
  \<open>pageWithoutBase =
     \<lparr>href = js ''https://traktrain.com/'',
      title = js ''Beats'',
      outerHTML = js ''<html><head></head><body><div data-player-info="{&quot;name&quot;:&quot;My Track&quot;,&quot;src&quot;:&quot;/abc.mp3&quot;}"></div></body></html>'',
      metaArtist = None,
      scripts = [],
      firstH1 = None,
      audioElements = [],
      playerInfoElements = [js ''{"name":"My Track","src":"/abc.mp3"}''],
      loadCompletes = True\<rparr>\<close>


definition fourElementPage :: document where
  \<open>fourElementPage =
     \<lparr>href = js ''https://traktrain.com/someartist'',
      title = js ''someartist'',
      outerHTML = js ''<html><head><script>var AWS_BASE_URL = "https://cdn.example.com";</script></head><body></body></html>'',
      metaArtist = None,
      scripts = [],
      firstH1 = None,
      audioElements = [],
      playerInfoElements =
        [js ''{"name":"One: First?","src":"/1.mp3"}'',
         js ''{"name":"Two","src":"/2.mp3"'',
         js ''{"name":"  Three   beats ","src":"/3.mp3"}'',
         js ''{"name":"Four","src":"/4.mp3","bpm":90}''],
      loadCompletes = True\<rparr>\<close>

definition emptyTracksState :: json where
  \<open>emptyTracksState =
     JObject [(js ''tracks'', JArray []),
              (js ''user'', JObject [(js ''tracks'',
                 JArray [JObject [(js ''name'', JString (js ''Beat'')),
                                  (js ''src'', JString (js ''/beat.mp3''))]])])]\<close>

definition emptyTracksPage :: document where
  \<open>emptyTracksPage =
     \<lparr>href = js ''https://traktrain.com/someartist'',
      title = js ''someartist'',
      outerHTML = js ''<html><head><script>var AWS_BASE_URL = "https://cdn.example.com";</script><script>window.__INITIAL_STATE__ = {"tracks":[],"user":{"tracks":[{"name":"Beat","src":"/beat.mp3"}]}};</script></head><body></body></html>'',
      metaArtist = None,
      scripts = [],
      firstH1 = None,
      audioElements = [],
      playerInfoElements = [],
      loadCompletes = True\<rparr>\<close>

definition audioPage :: document where
  \<open>audioPage =
     \<lparr>href = js ''https://traktrain.com/t/1377013'',
      title = js ''Night Drive - someartist'',
      outerHTML = js ''<html><head><title>Night Drive - someartist</title><script>var AWS_BASE_URL = "https://cdn.example.com";</script></head><body><audio src="https://cdn.example.com/night.mp3"></audio></body></html>'',
      metaArtist = None,
      scripts = [\<lparr>textContent = js ''var AWS_BASE_URL = "https://cdn.example.com";'',
                 innerHTML = js ''var AWS_BASE_URL = "https://cdn.example.com";''\<rparr>],
      firstH1 = None,
      audioElements = [\<lparr>srcProperty = Some (js ''https://cdn.example.com/night.mp3''),
                        dataSrc = None, dataTrackSrc = None\<rparr>],
      playerInfoElements = [],
      loadCompletes = True\<rparr>\<close>




definition emptyInfoPage :: document where
  \<open>emptyInfoPage =
     \<lparr>href = js ''https://traktrain.com/t/1377013'',
      title = js ''My Track - someartist'',
      outerHTML = js ''<html><head><title>My Track - someartist</title><script>var AWS_BASE_URL = "https://cdn.example.com/";</script></head><body><div data-player-info="{}"></div></body></html>'',
      metaArtist = None,
      scripts = [\<lparr>textContent = js ''var AWS_BASE_URL = "https://cdn.example.com/";'',
                 innerHTML = js ''var AWS_BASE_URL = "https://cdn.example.com/";''\<rparr>],
      firstH1 = None,
      audioElements = [],
      playerInfoElements = [js ''{}''],
      loadCompletes = True\<rparr>\<close>

definition artistFirstPage :: document where
  \<open>artistFirstPage = audioPage\<lparr>title := js ''someartist - Night Drive''\<rparr>\<close>

text \<open>
  A page whose \<^verbatim>\<open>load\<close> event never fires, and a host whose
  \<^verbatim>\<open>fetch\<close> never settles.
\<close>

definition loadingPage :: document where
  \<open>loadingPage = pageWithoutBase\<lparr>loadCompletes := False\<rparr>\<close>

definition hangingHost :: host where
  \<open>hangingHost = exampleHost\<lparr>fetchSettles := (\<lambda>u. False)\<rparr>\<close>

section \<open>Properties of the helpers\<close>

lemma filter_Cons_first: \<open>filter P xs = y # ys \<Longrightarrow> P y \<and> y \<in> set xs\<close>
proof -
  assume \<open>filter P xs = y # ys\<close>
  then have \<open>y \<in> set (filter P xs)\<close> by simp
  then show ?thesis by simp
qed

lemma extractArtistFromUrl_nonempty: \<open>extractArtistFromUrl h u = Some a \<Longrightarrow> a \<noteq> []\<close>
  by (auto simp: extractArtistFromUrl_def split: option.splits list.splits dest: filter_Cons_first)

lemma extractArtistFromUrl_None:
  \<open>extractArtistFromUrl h u = None \<longleftrightarrow>
     (case urlPathname h u of
        None \<Rightarrow> True
      | Some pathname \<Rightarrow> \<forall>part \<in> set (split (js ''/'') pathname). part = [])\<close>
  by (auto simp: extractArtistFromUrl_def filter_empty_conv split: option.splits list.splits
           dest: filter_Cons_first)

subsection \<open>The loops of the profile cascade\<close>

text \<open>
  The body of each loop as a function of one element, and the loops as maps over their
  input. \<open>urlFrom b t\<close>: the URL of \<open>t\<close> starts with \<open>b\<close>.
\<close>

definition urlFrom :: \<open>jsstring \<Rightarrow> track \<Rightarrow> bool\<close> where
  \<open>urlFrom awsBaseUrl t = (\<exists>s. url t = awsBaseUrl @ s)\<close>

lemma plusString_prefix: \<open>plusString h b v = Inr u \<Longrightarrow> \<exists>s. u = b @ s\<close>
  by (cases v) (auto split: sum.splits)

lemma makeTrack_urlFrom: \<open>makeTrack h b a data = Some (Some t) \<Longrightarrow> urlFrom b t\<close>
  by (auto simp: makeTrack_def urlFrom_def split: sum.splits option.splits if_splits
           dest: plusString_prefix)

definition elementTrack :: \<open>host \<Rightarrow> jsstring \<Rightarrow> jsstring \<Rightarrow> jsstring \<Rightarrow> track option\<close> where
  \<open>elementTrack h awsBaseUrl artist playerInfo =
     (if playerInfo = [] then None
      else
        (case JSON_parse playerInfo of
           None \<Rightarrow> None
         | Some trackData \<Rightarrow>
             (case makeTrack h awsBaseUrl artist trackData of
                Some (Some t) \<Rightarrow> Some t
              | _ \<Rightarrow> None)))\<close>

definition matchTrack :: \<open>host \<Rightarrow> jsstring \<Rightarrow> jsstring \<Rightarrow> jsstring \<Rightarrow> track option\<close> where
  \<open>matchTrack h awsBaseUrl artist mt =
     (case regexMatch playerInfoPattern mt of
        None \<Rightarrow> None
      | Some jsonMatch \<Rightarrow>
          (case JSON_parse (jsonMatch ! 1) of
             None \<Rightarrow> None
           | Some trackData \<Rightarrow>
               (case makeTrack h awsBaseUrl artist trackData of
                  Some (Some t) \<Rightarrow> Some t
                | _ \<Rightarrow> None)))\<close>

lemma scanElements_step:
  \<open>scanElements h b a (e # es) acc =
     scanElements h b a es (case elementTrack h b a e of None \<Rightarrow> acc | Some t \<Rightarrow> acc @ [t])\<close>
  by (simp add: elementTrack_def split: option.splits)

lemma scanElements_map_filter:
  \<open>scanElements h b a es acc = acc @ List.map_filter (elementTrack h b a) es\<close>
proof (induction es arbitrary: acc)
  case Nil
  show ?case by (simp add: map_filter_simps)
next
  case (Cons e es)
  show ?case
    unfolding scanElements_step Cons.IH
    by (cases \<open>elementTrack h b a e\<close>) (simp_all add: map_filter_simps)
qed

lemma scanMatches_step:
  \<open>scanMatches h b a (e # es) acc =
     scanMatches h b a es (case matchTrack h b a e of None \<Rightarrow> acc | Some t \<Rightarrow> acc @ [t])\<close>
  by (simp add: matchTrack_def split: option.splits)

lemma scanMatches_map_filter:
  \<open>scanMatches h b a es acc = acc @ List.map_filter (matchTrack h b a) es\<close>
proof (induction es arbitrary: acc)
  case Nil
  show ?case by (simp add: map_filter_simps)
next
  case (Cons e es)
  show ?case
    unfolding scanMatches_step Cons.IH
    by (cases \<open>matchTrack h b a e\<close>) (simp_all add: map_filter_simps)
qed

lemma elementTrack_urlFrom: \<open>elementTrack h b a e = Some t \<Longrightarrow> urlFrom b t\<close>
  unfolding elementTrack_def
  by (auto split: if_splits option.splits dest: makeTrack_urlFrom)

lemma matchTrack_urlFrom: \<open>matchTrack h b a e = Some t \<Longrightarrow> urlFrom b t\<close>
  unfolding matchTrack_def
  by (auto split: option.splits dest: makeTrack_urlFrom)

lemma map_filter_all: \<open>(\<And>x y. f x = Some y \<Longrightarrow> P y) \<Longrightarrow> \<forall>y \<in> set (List.map_filter f xs). P y\<close>
  by (auto simp: map_filter_def)

lemma scanElements_urlFrom:
  \<open>\<forall>t \<in> set acc. urlFrom b t \<Longrightarrow> \<forall>t \<in> set (scanElements h b a es acc). urlFrom b t\<close>
  using map_filter_all [of \<open>elementTrack h b a\<close> \<open>urlFrom b\<close> es] elementTrack_urlFrom [of h b a]
  unfolding scanElements_map_filter by auto

lemma scanMatches_urlFrom:
  \<open>\<forall>t \<in> set acc. urlFrom b t \<Longrightarrow> \<forall>t \<in> set (scanMatches h b a ms acc). urlFrom b t\<close>
  using map_filter_all [of \<open>matchTrack h b a\<close> \<open>urlFrom b\<close> ms] matchTrack_urlFrom [of h b a]
  unfolding scanMatches_map_filter by auto

lemma pushTracks_urlFrom:
  \<open>\<forall>t \<in> set acc. urlFrom b t \<Longrightarrow> \<forall>t \<in> set (fst (pushTracks h b a xs acc)). urlFrom b t\<close>
proof (induction xs arbitrary: acc)
  case Nil
  then show ?case by simp
next
  case (Cons x xs)
  show ?case
  proof (cases \<open>makeTrack h b a x\<close>)
    case None
    then show ?thesis using Cons.prems by simp
  next
    case (Some r)
    show ?thesis
    proof (cases r)
      case None
      have \<open>pushTracks h b a (x # xs) acc = pushTracks h b a xs acc\<close>
        using Some None by simp
      then show ?thesis using Cons.IH [OF Cons.prems] by simp
    next
      case (Some t)
      have m: \<open>makeTrack h b a x = Some (Some t)\<close>
        using Some \<open>makeTrack h b a x = Some r\<close> by simp
      have \<open>urlFrom b t\<close> by (rule makeTrack_urlFrom [OF m])
      then have p: \<open>\<forall>y \<in> set (acc @ [t]). urlFrom b y\<close> using Cons.prems by simp
      have \<open>pushTracks h b a (x # xs) acc = pushTracks h b a xs (acc @ [t])\<close>
        using m by simp
      then show ?thesis using Cons.IH [OF p] by simp
    qed
  qed
qed

lemma iterateTracks_urlFrom:
  \<open>\<forall>t \<in> set acc. urlFrom b t \<Longrightarrow> \<forall>t \<in> set (fst (iterateTracks h b a v acc)). urlFrom b t\<close>
  by (cases v) (simp_all add: pushTracks_urlFrom)

definition patternStep ::
  \<open>host \<Rightarrow> jsstring \<Rightarrow> jsstring \<Rightarrow> jsstring \<Rightarrow> regex \<Rightarrow> track list \<Rightarrow> track list \<times> bool\<close> where
  \<open>patternStep h b a html p acc =
     (case regexMatch p html of
        None \<Rightarrow> (acc, True)
      | Some m \<Rightarrow>
          (case JSON_parse (m ! 1) of
             None \<Rightarrow> (acc, True)
           | Some data \<Rightarrow>
               (case pickTrackArray h data of
                  None \<Rightarrow> (acc, True)
                | Some trackArray \<Rightarrow> iterateTracks h b a trackArray acc)))\<close>

lemma scanStatePatterns_step:
  \<open>scanStatePatterns h b a html (p # ps) acc =
     (case patternStep h b a html p acc of
        (ts, threw) \<Rightarrow> if \<not> threw \<and> ts \<noteq> [] then ts else scanStatePatterns h b a html ps ts)\<close>
  by (simp add: patternStep_def split: option.splits prod.splits)

lemma patternStep_urlFrom:
  \<open>\<forall>t \<in> set acc. urlFrom b t \<Longrightarrow> \<forall>t \<in> set (fst (patternStep h b a html p acc)). urlFrom b t\<close>
  unfolding patternStep_def
  by (auto split: option.splits dest: iterateTracks_urlFrom [rule_format, rotated])

lemma scanStatePatterns_urlFrom:
  \<open>\<forall>t \<in> set acc. urlFrom b t \<Longrightarrow>
     \<forall>t \<in> set (scanStatePatterns h b a html ps acc). urlFrom b t\<close>
proof (induction ps arbitrary: acc)
  case Nil
  then show ?case by simp
next
  case (Cons p ps)
  obtain ts threw where s: \<open>patternStep h b a html p acc = (ts, threw)\<close>
    by (cases \<open>patternStep h b a html p acc\<close>)
  have ts: \<open>\<forall>t \<in> set ts. urlFrom b t\<close>
    using patternStep_urlFrom [OF Cons.prems, of h a html p] s by simp
  show ?case
    unfolding scanStatePatterns_step s using ts Cons.IH [OF ts] by simp
qed

lemma locateAllTracks_urlFrom:
  \<open>\<forall>t \<in> set (snd (locateAllTracks h d html b a)). urlFrom b t\<close>
proof -
  let ?t1 = \<open>scanElements h b a (playerInfoElements d) []\<close>
  let ?t2 = \<open>scanStatePatterns h b a html jsTrackPatterns ?t1\<close>
  have 1: \<open>\<forall>t \<in> set ?t1. urlFrom b t\<close> by (rule scanElements_urlFrom) simp
  have 2: \<open>\<forall>t \<in> set ?t2. urlFrom b t\<close> by (rule scanStatePatterns_urlFrom) (rule 1)
  have 3: \<open>\<forall>t \<in> set (scanMatches h b a (matchAll playerInfoPattern html) ?t2). urlFrom b t\<close>
    by (rule scanMatches_urlFrom) (rule 2)
  show ?thesis using 1 2 3 by (simp add: locateAllTracks_def Let_def)
qed

lemma extractProfileBeats_success:
  assumes \<open>extractProfileBeats h d u caf = (started, Inr x)\<close>
  shows \<open>extractedTracks x \<noteq> []
         \<and> (\<exists>b. extractAwsBaseUrl (outerHTML d) = Some b
                \<and> (\<forall>t \<in> set (extractedTracks x). urlFrom b t))\<close>
proof -
  from assms obtain a b where a: \<open>extractArtistFromUrl h u = Some a\<close>
    and b: \<open>extractAwsBaseUrl (outerHTML d) = Some b\<close>
    by (auto simp: extractProfileBeats_def Let_def split: option.splits if_splits)
  obtain lg ts where l: \<open>locateAllTracks h d (outerHTML d) b a = (lg, ts)\<close>
    by (cases \<open>locateAllTracks h d (outerHTML d) b a\<close>)
  from assms a b l have \<open>ts \<noteq> []\<close> and \<open>x = Extraction ts a caf\<close>
    by (auto simp: extractProfileBeats_def Let_def split: if_splits)
  moreover have \<open>\<forall>t \<in> set ts. urlFrom b t\<close>
    using locateAllTracks_urlFrom [of h d \<open>outerHTML d\<close> b a] l by simp
  ultimately show ?thesis using b by simp
qed

lemma extractSingleBeat_cases:
  assumes \<open>extractSingleBeat h d u caf = (started, Inr x)\<close>
  obtains realUrl b nm sr downloadUrl n where
    \<open>(if stringIncludes u (js ''traktra.in/t/'') then followRedirect h u else Inr u) = Inr realUrl\<close>
    \<open>extractAwsBaseUrl (outerHTML d) = Some b\<close> \<open>b \<noteq> []\<close>
    \<open>locateSingleTrack h d (outerHTML d) realUrl b = (started, Some (TrackInfo nm sr))\<close>
    \<open>plusString h b sr = Inr downloadUrl\<close>
    \<open>sanitizeFilenameJs nm = Inr n\<close>
    \<open>x = Extraction [Track n downloadUrl (resolveArtist h d realUrl)] (resolveArtist h d realUrl) caf\<close>
proof -
  let ?r = \<open>if stringIncludes u (js ''traktra.in/t/'') then followRedirect h u else Inr u\<close>
  obtain realUrl where r: \<open>?r = Inr realUrl\<close>
    using assms unfolding extractSingleBeat_def by (cases ?r) simp_all
  have 1: \<open>(let artist = resolveArtist h d realUrl; html = outerHTML d in
           case extractAwsBaseUrl html of
             None \<Rightarrow> ([], Inl (Error singleAwsError))
           | Some awsBaseUrl \<Rightarrow>
               if awsBaseUrl = [] then ([], Inl (Error singleAwsError))
               else
                 (case locateSingleTrack h d html realUrl awsBaseUrl of
                    (started, None) \<Rightarrow> (started, Inl (Error trackNotFoundError))
                  | (started, Some (TrackInfo nm sr)) \<Rightarrow>
                      (started,
                       case plusString h awsBaseUrl sr of
                         Inl k \<Rightarrow> Inl (TypeError k)
                       | Inr downloadUrl \<Rightarrow>
                           (case sanitizeFilenameJs nm of
                              Inl k \<Rightarrow> Inl (TypeError k)
                            | Inr n \<Rightarrow>
                                Inr (Extraction [Track n downloadUrl artist] artist caf)))))
          = (started, Inr x)\<close>
    using assms unfolding extractSingleBeat_def r by simp
  obtain b where b: \<open>extractAwsBaseUrl (outerHTML d) = Some b\<close> \<open>b \<noteq> []\<close>
    using 1 by (cases \<open>extractAwsBaseUrl (outerHTML d)\<close>) (auto simp: Let_def split: if_splits)
  obtain lg ti where l: \<open>locateSingleTrack h d (outerHTML d) realUrl b = (lg, ti)\<close>
    by (cases \<open>locateSingleTrack h d (outerHTML d) realUrl b\<close>)
  obtain nm sr where ti: \<open>ti = Some (TrackInfo nm sr)\<close>
    using 1 b l by (cases ti) (auto simp: Let_def split: trackInfo.splits)
  have 2: \<open>lg = started\<close>
    and 3: \<open>(case plusString h b sr of
               Inl k \<Rightarrow> Inl (TypeError k)
             | Inr downloadUrl \<Rightarrow>
                 (case sanitizeFilenameJs nm of
                    Inl k \<Rightarrow> Inl (TypeError k)
                  | Inr n \<Rightarrow>
                      Inr (Extraction [Track n downloadUrl (resolveArtist h d realUrl)]
                             (resolveArtist h d realUrl) caf))) = Inr x\<close>
    using 1 b l ti by (simp_all add: Let_def)
  obtain downloadUrl where p: \<open>plusString h b sr = Inr downloadUrl\<close>
    using 3 by (cases \<open>plusString h b sr\<close>) simp_all
  obtain n where n: \<open>sanitizeFilenameJs nm = Inr n\<close>
    using 3 p by (cases \<open>sanitizeFilenameJs nm\<close>) simp_all
  have \<open>x = Extraction [Track n downloadUrl (resolveArtist h d realUrl)]
              (resolveArtist h d realUrl) caf\<close>
    using 3 p n by simp
  then show ?thesis using that r b l ti 2 p n by blast
qed

lemma extractSingleBeat_success:
  assumes \<open>extractSingleBeat h d u caf = (started, Inr x)\<close>
  shows \<open>\<exists>b t. extractAwsBaseUrl (outerHTML d) = Some b \<and> extractedTracks x = [t] \<and> urlFrom b t\<close>
proof -
  from extractSingleBeat_cases [OF assms] obtain realUrl b nm sr downloadUrl n where
    c: \<open>extractAwsBaseUrl (outerHTML d) = Some b\<close>
       \<open>plusString h b sr = Inr downloadUrl\<close>
       \<open>x = Extraction [Track n downloadUrl (resolveArtist h d realUrl)] (resolveArtist h d realUrl) caf\<close>
    by metis
  have \<open>urlFrom b (Track n downloadUrl (resolveArtist h d realUrl))\<close>
    using plusString_prefix [OF c(2)] by (simp add: urlFrom_def)
  then show ?thesis using c by simp
qed

subsection \<open>What a group captures\<close>

text \<open>
  A group \<^verbatim>\<open>(c+)\<close> that follows atoms without parentheses is the first group of
  the match: its text is not empty and all of it lies in the class \<open>c\<close>. So the base
  URL that \<open>extractAwsBaseUrl\<close> returns is never empty, and the text that the
  attribute pattern captures holds no double quote.
\<close>

lemma rmatch_Star_skip:
  \<open>rmatch (Star c # r) s = Some ms \<Longrightarrow> \<exists>s'. rmatch r s' = Some ms\<close>
proof (induction s)
  case Nil
  then show ?case by auto
next
  case (Cons x xs)
  then show ?case by (auto split: if_splits option.splits)
qed

lemma rmatch_LazyStar_skip:
  \<open>rmatch (LazyStar c # r) s = Some ms \<Longrightarrow> \<exists>s'. rmatch r s' = Some ms\<close>
proof (induction s)
  case Nil
  then show ?case by auto
next
  case (Cons x xs)
  then show ?case by (auto split: if_splits option.splits)
qed

lemma rmatch_Lit_skip:
  \<open>rmatch (Lit t # r) s = Some ms \<Longrightarrow> \<exists>s'. rmatch r s' = Some ms\<close>
proof (induction t arbitrary: s)
  case Nil
  then show ?case by auto
next
  case (Cons a t)
  then show ?case by (cases s) (auto split: if_splits)
qed

lemma rmatch_skip:
  assumes \<open>rmatch (x # r) s = Some ms\<close> \<open>x \<noteq> GroupOpen\<close> \<open>x \<noteq> GroupClose\<close>
  shows \<open>\<exists>s'. rmatch r s' = Some ms\<close>
proof (cases x)
  case (Lit t)
  then show ?thesis using assms rmatch_Lit_skip by blast
next
  case (One c)
  then show ?thesis using assms by (cases s) (auto split: if_splits)
next
  case (Opt c)
  then show ?thesis using assms by (cases s) (auto split: if_splits option.splits)
next
  case (Star c)
  then show ?thesis using assms rmatch_Star_skip by blast
next
  case (Plus c)
  then show ?thesis using assms rmatch_Star_skip by (cases s) (auto split: if_splits)
next
  case (LazyStar c)
  then show ?thesis using assms rmatch_LazyStar_skip by blast
next
  case (LazyPlus c)
  then show ?thesis using assms rmatch_LazyStar_skip by (cases s) (auto split: if_splits)
next
  case GroupOpen
  then show ?thesis using assms by simp
next
  case GroupClose
  then show ?thesis using assms by simp
qed

lemma rmatch_skip_prefix:
  assumes \<open>rmatch (pre @ r) s = Some ms\<close> \<open>\<forall>x \<in> set pre. x \<noteq> GroupOpen \<and> x \<noteq> GroupClose\<close>
  shows \<open>\<exists>s'. rmatch r s' = Some ms\<close>
  using assms
proof (induction pre arbitrary: s)
  case Nil
  then show ?case by auto
next
  case (Cons x pre)
  then obtain s' where \<open>rmatch (pre @ r) s' = Some ms\<close>
    using rmatch_skip [of x \<open>pre @ r\<close> s ms] by auto
  then show ?case using Cons by auto
qed

lemma rmatch_Star_close:
  \<open>rmatch (Star c # GroupClose # r) s = Some ms \<Longrightarrow>
     \<exists>pre b ms'. ms = b # ms' \<and> s = pre @ b \<and> (\<forall>x \<in> set pre. inClass c x)\<close>
proof (induction s arbitrary: ms)
  case Nil
  then show ?case by auto
next
  case (Cons x xs)
  show ?case
  proof (cases \<open>inClass c x \<and> rmatch (Star c # GroupClose # r) xs \<noteq> None\<close>)
    case True
    then obtain m where m: \<open>rmatch (Star c # GroupClose # r) xs = Some m\<close> by auto
    then have \<open>ms = m\<close> using Cons.prems True by simp
    moreover obtain pre b ms' where \<open>m = b # ms'\<close> \<open>xs = pre @ b\<close> \<open>\<forall>x \<in> set pre. inClass c x\<close>
      using Cons.IH [OF m] by blast
    ultimately have \<open>ms = b # ms' \<and> x # xs = (x # pre) @ b \<and> (\<forall>y \<in> set (x # pre). inClass c y)\<close>
      using True by simp
    then show ?thesis by blast
  next
    case False
    then have \<open>rmatch (GroupClose # r) (x # xs) = Some ms\<close>
      using Cons.prems by (auto split: if_splits option.splits)
    then have \<open>\<exists>ms'. ms = (x # xs) # ms'\<close> by auto
    then show ?thesis by fastforce
  qed
qed

lemma rmatch_group_Plus:
  assumes \<open>rmatch (GroupOpen # Plus c # GroupClose # r) s = Some ms\<close>
  shows \<open>\<exists>pre b ms'. ms = s # b # ms' \<and> s = pre @ b \<and> pre \<noteq> []
           \<and> (\<forall>x \<in> set pre. inClass c x)\<close>
proof -
  from assms obtain m where m: \<open>rmatch (Plus c # GroupClose # r) s = Some m\<close> \<open>ms = s # m\<close>
    by auto
  then obtain x xs where s: \<open>s = x # xs\<close> \<open>inClass c x\<close>
    \<open>rmatch (Star c # GroupClose # r) xs = Some m\<close>
    by (cases s) (auto split: if_splits)
  obtain pre b ms' where \<open>m = b # ms'\<close> \<open>xs = pre @ b\<close> \<open>\<forall>x \<in> set pre. inClass c x\<close>
    using rmatch_Star_close [OF s(3)] by blast
  then have \<open>ms = s # b # ms' \<and> s = (x # pre) @ b \<and> x # pre \<noteq> []
               \<and> (\<forall>y \<in> set (x # pre). inClass c y)\<close>
    using m s by simp
  then show ?thesis by blast
qed

lemma rsearch_rmatch: \<open>rsearch p s = Some (start, ms) \<Longrightarrow> rmatch p start = Some ms\<close>
  by (induction s) (auto split: option.splits)

lemma regexMatch_first_group:
  assumes \<open>regexMatch (pre @ GroupOpen # Plus c # GroupClose # r) s = Some m\<close>
    and \<open>\<forall>x \<in> set pre. x \<noteq> GroupOpen \<and> x \<noteq> GroupClose\<close>
  shows \<open>m ! 1 \<noteq> [] \<and> (\<forall>x \<in> set (m ! 1). inClass c x)\<close>
proof -
  obtain start ms where r: \<open>rsearch (pre @ GroupOpen # Plus c # GroupClose # r) s = Some (start, ms)\<close>
    and m: \<open>m = between start (last ms) # groups ms\<close>
    using assms(1) by (auto simp: regexMatch_def)
  obtain s' where \<open>rmatch (GroupOpen # Plus c # GroupClose # r) s' = Some ms\<close>
    using rmatch_skip_prefix [OF rsearch_rmatch [OF r] assms(2)] by blast
  then obtain p b ms' where \<open>ms = s' # b # ms'\<close> \<open>s' = p @ b\<close> \<open>p \<noteq> []\<close>
    \<open>\<forall>x \<in> set p. inClass c x\<close>
    using rmatch_group_Plus by blast
  then show ?thesis using m by (simp add: between_def)
qed

lemma extractAwsBaseUrl_nonempty: \<open>extractAwsBaseUrl html = Some b \<Longrightarrow> b \<noteq> []\<close>
proof -
  assume a: \<open>extractAwsBaseUrl html = Some b\<close>
  then obtain m where m: \<open>regexMatch awsPattern html = Some m\<close> \<open>b = m ! 1\<close>
    by (auto simp: extractAwsBaseUrl_def split: option.splits)
  let ?pre = \<open>[Lit (js ''var AWS_BASE_URL''), whiteSpaces, Lit (js ''=''), whiteSpaces,
               One (Class [quotes])]\<close>
  have p: \<open>awsPattern =
         ?pre @ GroupOpen # Plus (NotClass [quotes]) # GroupClose # [One (Class [quotes])]\<close>
    by (simp add: awsPattern_def)
  have q: \<open>\<forall>x \<in> set ?pre. x \<noteq> GroupOpen \<and> x \<noteq> GroupClose\<close>
    by (simp add: whiteSpaces_def)
  show ?thesis
    using regexMatch_first_group [OF m(1) [unfolded p] q] m(2) by simp
qed

lemma playerInfo_group_quote_free:
  assumes \<open>regexMatch playerInfoPattern s = Some m\<close>
  shows \<open>0x22 \<notin> set (m ! 1)\<close>
proof -
  let ?pre = \<open>[Lit (js ''data-player-info=''), One (Class [quotes])]\<close>
  have p: \<open>playerInfoPattern =
         ?pre @ GroupOpen # Plus (NotClass [quotes]) # GroupClose # [One (Class [quotes])]\<close>
    by (simp add: playerInfoPattern_def)
  have q: \<open>\<forall>x \<in> set ?pre. x \<noteq> GroupOpen \<and> x \<noteq> GroupClose\<close>
    by simp
  have \<open>\<forall>x \<in> set (m ! 1). inClass (NotClass [quotes]) x\<close>
    using regexMatch_first_group [OF assms [unfolded p] q] by simp
  then show ?thesis by (auto simp: quotes_def js_def)
qed

subsection \<open>Valid and skipped attribute elements\<close>

text \<open>
  An attribute value is a valid descriptor when it parses to an object whose
  \<^verbatim>\<open>name\<close> and \<^verbatim>\<open>src\<close> are non-empty strings. It is malformed or misses a
  field when it does not parse, or \<^verbatim>\<open>name\<close> or \<^verbatim>\<open>src\<close> is absent or
  falsy.
\<close>

definition validDescriptor :: \<open>jsstring \<Rightarrow> (jsstring \<times> jsstring) option\<close> where
  \<open>validDescriptor playerInfo =
     (case JSON_parse playerInfo of
        None \<Rightarrow> None
      | Some trackData \<Rightarrow>
          (case (getProp trackData (js ''name''), getProp trackData (js ''src'')) of
             (Inr (Some (JString n)), Inr (Some (JString s))) \<Rightarrow>
               if n \<noteq> [] \<and> s \<noteq> [] then Some (n, s) else None
           | _ \<Rightarrow> None))\<close>

definition malformedOrMissing :: \<open>host \<Rightarrow> jsstring \<Rightarrow> bool\<close> where
  \<open>malformedOrMissing h playerInfo =
     (case JSON_parse playerInfo of
        None \<Rightarrow> True
      | Some trackData \<Rightarrow>
          (case (getProp trackData (js ''name''), getProp trackData (js ''src'')) of
             (Inr nm, Inr sr) \<Rightarrow> \<not> truthy h nm \<or> \<not> truthy h sr
           | _ \<Rightarrow> False))\<close>

definition validTrack :: \<open>jsstring \<Rightarrow> jsstring \<Rightarrow> jsstring \<Rightarrow> track option\<close> where
  \<open>validTrack awsBaseUrl artist playerInfo =
     map_option (\<lambda>(n, s). Track (sanitizeFilename n) (awsBaseUrl @ s) artist)
       (validDescriptor playerInfo)\<close>

lemma JSON_parse_empty: \<open>JSON_parse [] = None\<close>
  by (simp add: JSON_parse_def)

lemma elementTrack_valid:
  \<open>validDescriptor e = Some (n, s) \<Longrightarrow>
     elementTrack h b a e = Some (Track (sanitizeFilename n) (b @ s) a)\<close>
  unfolding validDescriptor_def elementTrack_def makeTrack_def
  by (auto simp: JSON_parse_empty split: option.splits sum.splits json.splits if_splits)

lemma elementTrack_skipped: \<open>malformedOrMissing h e \<Longrightarrow> elementTrack h b a e = None\<close>
  unfolding malformedOrMissing_def elementTrack_def makeTrack_def
  by (auto split: option.splits sum.splits)

lemma validDescriptor_not_skipped: \<open>validDescriptor e = Some v \<Longrightarrow> \<not> malformedOrMissing h e\<close>
  unfolding malformedOrMissing_def validDescriptor_def
  by (auto split: option.splits sum.splits json.splits if_splits)

lemma map_filter_cong_set:
  \<open>(\<And>x. x \<in> set xs \<Longrightarrow> f x = g x) \<Longrightarrow> List.map_filter f xs = List.map_filter g xs\<close>
  by (induction xs) (auto simp: map_filter_simps split: option.splits)

lemma length_map_filter:
  \<open>length (List.map_filter f xs) = length (filter (\<lambda>x. f x \<noteq> None) xs)\<close>
  by (induction xs) (auto simp: map_filter_simps split: option.splits)

lemma elementTrack_validTrack:
  assumes \<open>validDescriptor e \<noteq> None \<or> malformedOrMissing h e\<close>
  shows \<open>elementTrack h b a e = validTrack b a e\<close>
proof (cases \<open>validDescriptor e\<close>)
  case None
  then show ?thesis using assms elementTrack_skipped by (simp add: validTrack_def)
next
  case (Some v)
  then show ?thesis using elementTrack_valid [of e \<open>fst v\<close> \<open>snd v\<close> h b a]
    by (simp add: validTrack_def split: prod.splits)
qed

subsection \<open>The candidate track lists of the state scan\<close>

text \<open>
  The three fields that \<open>pickTrackArray\<close> probes, as values (\<open>None\<close>:
  \<^verbatim>\<open>undefined\<close>), and the first truthy one of them.
\<close>

definition field :: \<open>json option \<Rightarrow> jsstring \<Rightarrow> json option\<close> where
  \<open>field v k =
     (case v of
        None \<Rightarrow> None
      | Some j \<Rightarrow> (case getProp j k of Inl e \<Rightarrow> None | Inr x \<Rightarrow> x))\<close>

definition fieldCandidates :: \<open>json \<Rightarrow> json option list\<close> where
  \<open>fieldCandidates data =
     [field (Some data) (js ''tracks''),
      field (Some data) (js ''beats''),
      field (field (Some data) (js ''user'')) (js ''tracks'')]\<close>

definition firstTruthyField :: \<open>host \<Rightarrow> json \<Rightarrow> json\<close> where
  \<open>firstTruthyField h data =
     (case find (truthy h) (fieldCandidates data) of Some (Some v) \<Rightarrow> v | _ \<Rightarrow> JArray [])\<close>

text \<open>
  The claim's wording of the probe: the first non-empty list among the parsed value
  itself (if an array), \<^verbatim>\<open>.tracks\<close>, \<^verbatim>\<open>.beats\<close> and
  \<^verbatim>\<open>.user.tracks\<close>.
\<close>

definition nonEmptyArray :: \<open>json option \<Rightarrow> bool\<close> where
  \<open>nonEmptyArray v = (case v of Some (JArray (x # xs)) \<Rightarrow> True | _ \<Rightarrow> False)\<close>

definition claimedTrackList :: \<open>json \<Rightarrow> json option\<close> where
  \<open>claimedTrackList data =
     (case find nonEmptyArray
             ((case data of JArray xs \<Rightarrow> Some data | _ \<Rightarrow> None) # fieldCandidates data) of
        Some (Some v) \<Rightarrow> Some v
      | _ \<Rightarrow> None)\<close>

lemma getProp_falsy_no_tracks:
  \<open>\<not> truthy h (Some user) \<Longrightarrow> field (Some user) k = None\<close>
  by (cases user) (auto simp: field_def)

subsection \<open>Substrings\<close>

text \<open>
  \<open>stringIncludes s t\<close> holds when \<open>t\<close> occurs in \<open>s\<close>; \<open>removeFirst s t\<close> changes
  \<open>s\<close> exactly when a non-empty \<open>t\<close> occurs in it, and strips \<open>t\<close> when \<open>s\<close> starts
  with it.
\<close>

lemma stringIncludes_iff: \<open>stringIncludes s t \<longleftrightarrow> (\<exists>pre post. s = pre @ t @ post)\<close>
proof (induction s)
  case Nil
  show ?case by auto
next
  case (Cons c cs)
  have 1: \<open>take (length t) (c # cs) = t \<longleftrightarrow> (\<exists>post. c # cs = t @ post)\<close>
    by (metis append_eq_conv_conj append_take_drop_id)
  have 2: \<open>(\<exists>pre post. c # cs = pre @ t @ post)
             \<longleftrightarrow> (\<exists>post. c # cs = t @ post) \<or> (\<exists>pre post. cs = pre @ t @ post)\<close>
  proof
    assume \<open>\<exists>pre post. c # cs = pre @ t @ post\<close>
    then obtain pre post where e: \<open>c # cs = pre @ t @ post\<close> by blast
    show \<open>(\<exists>post. c # cs = t @ post) \<or> (\<exists>pre post. cs = pre @ t @ post)\<close>
    proof (cases pre)
      case Nil
      then show ?thesis using e by auto
    next
      case (Cons p ps)
      then have \<open>cs = ps @ t @ post\<close> using e by simp
      then show ?thesis by blast
    qed
  next
    assume \<open>(\<exists>post. c # cs = t @ post) \<or> (\<exists>pre post. cs = pre @ t @ post)\<close>
    then show \<open>\<exists>pre post. c # cs = pre @ t @ post\<close>
    proof
      assume \<open>\<exists>post. c # cs = t @ post\<close>
      then show ?thesis by (metis append_Nil)
    next
      assume \<open>\<exists>pre post. cs = pre @ t @ post\<close>
      then obtain pre post where \<open>cs = pre @ t @ post\<close> by blast
      then have \<open>c # cs = (c # pre) @ t @ post\<close> by simp
      then show ?thesis by blast
    qed
  qed
  show ?case using Cons.IH 1 2 by simp
qed

lemma length_removeFirst:
  \<open>length (removeFirst s t) = (if stringIncludes s t then length s - length t else length s)\<close>
proof (induction s)
  case Nil
  show ?case by simp
next
  case (Cons c cs)
  show ?case
  proof (cases \<open>take (length t) (c # cs) = t\<close>)
    case True
    then show ?thesis by simp
  next
    case False
    have \<open>stringIncludes cs t \<Longrightarrow> length t \<le> length cs\<close>
      by (auto simp: stringIncludes_iff)
    then show ?thesis using False Cons.IH by (auto simp: Suc_diff_le)
  qed
qed

lemma removeFirst_unchanged:
  \<open>removeFirst s t = s \<longleftrightarrow> t = [] \<or> \<not> stringIncludes s t\<close>
proof (induction s)
  case Nil
  show ?case by auto
next
  case (Cons c cs)
  show ?case
  proof (cases \<open>take (length t) (c # cs) = t\<close>)
    case True
    have \<open>drop (length t) (c # cs) = c # cs \<longleftrightarrow> t = []\<close>
    proof
      assume \<open>drop (length t) (c # cs) = c # cs\<close>
      then have \<open>length (drop (length t) (c # cs)) = length (c # cs)\<close> by simp
      then show \<open>t = []\<close> by (cases t) auto
    qed simp
    then show ?thesis using True by simp
  next
    case False
    then have \<open>t \<noteq> []\<close> by auto
    then show ?thesis using False Cons.IH by simp
  qed
qed

lemma removeFirst_prefix: \<open>removeFirst (t @ rest) t = rest\<close>
proof (cases \<open>t @ rest\<close>)
  case Nil
  then show ?thesis by simp
next
  case (Cons c cs)
  have \<open>take (length t) (t @ rest) = t\<close> \<open>drop (length t) (t @ rest) = rest\<close> by simp_all
  then have \<open>take (length t) (c # cs) = t\<close> \<open>drop (length t) (c # cs) = rest\<close>
    unfolding Cons by blast+
  then show ?thesis unfolding Cons by simp
qed

subsection \<open>The elements that the third strategy accepts\<close>

text \<open>
  The source of an element is accepted when it contains \<^verbatim>\<open>.mp3\<close> and the base
  URL; the loop over the elements returns the descriptor of the first accepted source.
\<close>

definition acceptedSrc :: \<open>jsstring \<Rightarrow> audioElement \<Rightarrow> jsstring option\<close> where
  \<open>acceptedSrc awsBaseUrl e =
     (case elementSrc e of
        None \<Rightarrow> None
      | Some src \<Rightarrow>
          if stringIncludes src (js ''.mp3'') \<and> awsBaseUrl \<noteq> [] \<and> stringIncludes src awsBaseUrl
          then Some src else None)\<close>

lemma mp3_nonempty: \<open>stringIncludes src (js ''.mp3'') \<Longrightarrow> src \<noteq> []\<close>
  by (cases src) (auto simp: js_def)

lemma scanAudio_accepted:
  \<open>scanAudio b nm es =
     (case List.map_filter (acceptedSrc b) es of
        [] \<Rightarrow> None
      | src # _ \<Rightarrow>
          Some (TrackInfo (JString (orDefault nm (js ''Unknown Track'')))
                  (Some (JString (removeFirst src b)))))\<close>
proof (induction es)
  case Nil
  show ?case by (simp add: map_filter_simps)
next
  case (Cons e es)
  show ?case
  proof (cases \<open>acceptedSrc b e\<close>)
    case None
    then have \<open>scanAudio b nm (e # es) = scanAudio b nm es\<close>
      using removeFirst_unchanged [of _ b] mp3_nonempty
      by (auto simp: acceptedSrc_def split: option.splits if_splits)
    then show ?thesis using None Cons.IH by (simp add: map_filter_simps)
  next
    case (Some src)
    then have \<open>scanAudio b nm (e # es) =
                 Some (TrackInfo (JString (orDefault nm (js ''Unknown Track'')))
                         (Some (JString (removeFirst src b))))\<close>
      using removeFirst_unchanged [of src b] mp3_nonempty [of src]
      by (auto simp: acceptedSrc_def split: option.splits if_splits)
    then show ?thesis using Some by (simp add: map_filter_simps)
  qed
qed

text \<open>
  The claim's wording of the third strategy: the name is the second segment of the
  title or the first heading; the source is that of an element whose source starts with
  the base URL, with that prefix stripped; a descriptor needs both.
\<close>

definition claimedPageTrackName :: \<open>document \<Rightarrow> jsstring option\<close> where
  \<open>claimedPageTrackName d =
     (case regexMatch titlePattern (title d) of
        Some titleMatch \<Rightarrow> Some (trim (titleMatch ! 2))
      | None \<Rightarrow> map_option trim (firstH1 d))\<close>

definition claimedFromPageElements :: \<open>document \<Rightarrow> jsstring \<Rightarrow> trackInfo option\<close> where
  \<open>claimedFromPageElements d awsBaseUrl =
     (case claimedPageTrackName d of
        None \<Rightarrow> None
      | Some n \<Rightarrow>
          if n = [] then None
          else
            (case List.map_filter
                    (\<lambda>e. case elementSrc e of
                           None \<Rightarrow> None
                         | Some src \<Rightarrow>
                             if take (length awsBaseUrl) src = awsBaseUrl then Some src else None)
                    (audioElements d) of
               [] \<Rightarrow> None
             | src # _ \<Rightarrow>
                 Some (TrackInfo (JString n) (Some (JString (drop (length awsBaseUrl) src))))))\<close>

subsection \<open>Where the tracks of a result come from\<close>















subsection \<open>The messages of a failure envelope\<close>

text \<open>
  The fixed messages of the \<^verbatim>\<open>throw new Error\<close> statements of the script.
\<close>

definition scriptErrors :: \<open>jsstring list\<close> where
  \<open>scriptErrors =
     [js ''Invalid extraction type'', js ''Could not resolve short URL'', singleAwsError,
      trackNotFoundError, artistError, profileAwsError]\<close>

lemma extractSingleBeat_thrown:
  assumes \<open>extractSingleBeat h d u caf = (started, Inl e)\<close>
  shows \<open>e = Error (js ''Could not resolve short URL'') \<or> e = Error singleAwsError
         \<or> e = Error trackNotFoundError \<or> (\<exists>k. e = TypeError k)\<close>
proof -
  let ?r = \<open>if stringIncludes u (js ''traktra.in/t/'') then followRedirect h u else Inr u\<close>
  show ?thesis
  proof (cases ?r)
    case (Inl e0)
    then have \<open>e0 = Error (js ''Could not resolve short URL'')\<close>
      by (auto simp: followRedirect_def split: if_splits option.splits)
    moreover have \<open>e = e0\<close> using assms Inl unfolding extractSingleBeat_def by simp
    ultimately show ?thesis by simp
  next
    case (Inr realUrl)
    have 1: \<open>(case extractAwsBaseUrl (outerHTML d) of
             None \<Rightarrow> ([], Inl (Error singleAwsError))
           | Some awsBaseUrl \<Rightarrow>
               if awsBaseUrl = [] then ([], Inl (Error singleAwsError))
               else
                 (case locateSingleTrack h d (outerHTML d) realUrl awsBaseUrl of
                    (started, None) \<Rightarrow> (started, Inl (Error trackNotFoundError))
                  | (started, Some (TrackInfo nm sr)) \<Rightarrow>
                      (started,
                       case plusString h awsBaseUrl sr of
                         Inl k \<Rightarrow> Inl (TypeError k)
                       | Inr downloadUrl \<Rightarrow>
                           (case sanitizeFilenameJs nm of
                              Inl k \<Rightarrow> Inl (TypeError k)
                            | Inr n \<Rightarrow>
                                Inr (Extraction [Track n downloadUrl (resolveArtist h d realUrl)]
                                       (resolveArtist h d realUrl) caf)))))
          = (started, Inl e)\<close>
      using assms unfolding extractSingleBeat_def Inr by (simp add: Let_def)
    show ?thesis
    proof (cases \<open>extractAwsBaseUrl (outerHTML d)\<close>)
      case None
      then show ?thesis using 1 by simp
    next
      case (Some b)
      show ?thesis
      proof (cases \<open>b = []\<close>)
        case True
        then show ?thesis using 1 Some by simp
      next
        case False
        obtain lg ti where l: \<open>locateSingleTrack h d (outerHTML d) realUrl b = (lg, ti)\<close>
          by (cases \<open>locateSingleTrack h d (outerHTML d) realUrl b\<close>)
        show ?thesis
        proof (cases ti)
          case None
          then show ?thesis using 1 Some False l by simp
        next
          case (Some info)
          obtain nm sr where i: \<open>info = TrackInfo nm sr\<close> by (cases info)
          have 2: \<open>(case plusString h b sr of
                         Inl k \<Rightarrow> Inl (TypeError k)
                       | Inr downloadUrl \<Rightarrow>
                           (case sanitizeFilenameJs nm of
                              Inl k \<Rightarrow> Inl (TypeError k)
                            | Inr n \<Rightarrow>
                                Inr (Extraction [Track n downloadUrl (resolveArtist h d realUrl)]
                                       (resolveArtist h d realUrl) caf))) = Inl e\<close>
            using 1 \<open>extractAwsBaseUrl (outerHTML d) = Some b\<close> False l Some i by simp
          show ?thesis
          proof (cases \<open>plusString h b sr\<close>)
            case (Inl k)
            then show ?thesis using 2 by auto
          next
            case (Inr downloadUrl)
            then show ?thesis using 2 by (cases \<open>sanitizeFilenameJs nm\<close>) auto
          qed
        qed
      qed
    qed
  qed
qed

lemma extractProfileBeats_thrown:
  assumes \<open>extractProfileBeats h d u caf = (started, Inl e)\<close>
  shows \<open>e = Error artistError \<or> e = Error profileAwsError
         \<or> (\<exists>b. extractAwsBaseUrl (outerHTML d) = Some b
                \<and> e = Error (noTracksError u b (length (playerInfoElements d))))\<close>
proof (cases \<open>extractArtistFromUrl h u\<close>)
  case None
  then show ?thesis using assms by (simp add: extractProfileBeats_def)
next
  case (Some a)
  then have a: \<open>a \<noteq> []\<close> by (rule extractArtistFromUrl_nonempty)
  show ?thesis
  proof (cases \<open>extractAwsBaseUrl (outerHTML d)\<close>)
    case None
    then show ?thesis using assms Some a by (simp add: extractProfileBeats_def)
  next
    case b: (Some b)
    then have bn: \<open>b \<noteq> []\<close> by (rule extractAwsBaseUrl_nonempty)
    obtain lg ts where l: \<open>locateAllTracks h d (outerHTML d) b a = (lg, ts)\<close>
      by (cases \<open>locateAllTracks h d (outerHTML d) b a\<close>)
    have \<open>e = Error (noTracksError u b (length (playerInfoElements d)))\<close>
      using assms Some a b bn l by (simp add: extractProfileBeats_def split: if_splits)
    then show ?thesis using b by simp
  qed
qed

lemma handleDataExtraction_Failure:
  assumes \<open>handleDataExtraction h d requestType caf = (started, Failure m)\<close>
  shows \<open>m \<in> set scriptErrors
         \<or> (\<exists>b. extractAwsBaseUrl (outerHTML d) = Some b
                \<and> m = noTracksError (href d) b (length (playerInfoElements d)))
         \<or> (\<exists>k. m = typeErrorMessage h k)\<close>
proof -
  let ?body = \<open>if requestType = Some (JString (js ''single''))
            then extractSingleBeat h d (href d) caf
            else if requestType = Some (JString (js ''profile''))
            then extractProfileBeats h d (href d) caf
            else ([], Inl (Error (js ''Invalid extraction type'')))\<close>
  obtain lg res where b: \<open>?body = (lg, res)\<close> by (cases ?body)
  then obtain e where e: \<open>res = Inl e\<close> \<open>m = messageOf h e\<close>
    using assms unfolding handleDataExtraction_def by (cases res) auto
  consider (single) \<open>extractSingleBeat h d (href d) caf = (lg, Inl e)\<close>
    | (profile) \<open>extractProfileBeats h d (href d) caf = (lg, Inl e)\<close>
    | (other) \<open>e = Error (js ''Invalid extraction type'')\<close>
    using b e(1) by (auto split: if_splits)
  then show ?thesis
  proof cases
    case single
    then show ?thesis using extractSingleBeat_thrown [OF single] e(2)
      by (auto simp: scriptErrors_def)
  next
    case profile
    then show ?thesis using extractProfileBeats_thrown [OF profile] e(2)
      by (auto simp: scriptErrors_def)
  next
    case other
    then show ?thesis using e(2) by (simp add: scriptErrors_def)
  qed
qed

lemma handleDataExtraction_Success_nonempty:
  assumes \<open>handleDataExtraction h d requestType caf = (started, Success x)\<close>
  shows \<open>extractedTracks x \<noteq> []\<close>
proof -
  from assms consider
      (single) \<open>extractSingleBeat h d (href d) caf = (started, Inr x)\<close>
    | (profile) \<open>extractProfileBeats h d (href d) caf = (started, Inr x)\<close>
    by (auto simp: handleDataExtraction_def split: if_splits prod.splits sum.splits)
  then show ?thesis
  proof cases
    case single
    then show ?thesis using extractSingleBeat_success [OF single] by auto
  next
    case profile
    then show ?thesis using extractProfileBeats_success [OF profile] by auto
  qed
qed

section \<open>Claims\<close>




text \<open>
  C2. The sanitizer is a function of its argument alone. Applying it twice gives the same
  result as applying it once; its output has no code unit of
  \<^verbatim>\<open>< > : " / \\ | ? *\<close>, every white-space code unit of the output is a
  space and no two of them are adjacent, and the output neither starts nor ends with
  white space.
\<close>

theorem sanitizeFilename_idempotent_normal:
  \<open>sanitizeFilename (sanitizeFilename x) = sanitizeFilename x
   \<and> (\<forall>c \<in> set (sanitizeFilename x). c \<notin> set invalidChars)
   \<and> (\<forall>c \<in> set (sanitizeFilename x). isWhiteSpace c \<longrightarrow> c = 0x20)
   \<and> (\<forall>i. Suc i < length (sanitizeFilename x) \<longrightarrow>
          \<not> (isWhiteSpace (sanitizeFilename x ! i) \<and> isWhiteSpace (sanitizeFilename x ! Suc i)))
   \<and> (sanitizeFilename x \<noteq> [] \<longrightarrow>
          \<not> isWhiteSpace (hd (sanitizeFilename x)) \<and> \<not> isWhiteSpace (last (sanitizeFilename x)))\<close>
proof -
  let ?y = \<open>sanitizeFilename x\<close>
  let ?m = \<open>collapseWhiteSpace (removeInvalid x)\<close>
  have y: \<open>?y = trim ?m\<close> by (simp add: sanitizeFilename_def)
  have \<open>set ?y \<subseteq> insert 0x20 (set (removeInvalid x))\<close>
    using set_trim [of ?m] set_collapseWhiteSpace [of \<open>removeInvalid x\<close>] y by auto
  then have inv: \<open>\<forall>c \<in> set ?y. c \<notin> set invalidChars\<close>
    using space_not_invalid by (auto simp: removeInvalid_def)
  have col: \<open>collapsed ?y\<close>
    using collapsed_trim [OF collapsed_collapseWhiteSpace] y by simp
  have ends: \<open>?y \<noteq> [] \<longrightarrow> \<not> isWhiteSpace (hd ?y) \<and> \<not> isWhiteSpace (last ?y)\<close>
    using trim_ends [of ?m] y by simp
  have \<open>removeInvalid ?y = ?y\<close>
    using inv by (simp add: removeInvalid_def)
  moreover have \<open>collapseWhiteSpace ?y = ?y\<close>
    using col by (rule collapseWhiteSpace_collapsed)
  moreover have \<open>trim ?y = ?y\<close>
    using ends by (intro trim_noop) simp
  ultimately have idem: \<open>sanitizeFilename ?y = ?y\<close>
    by (simp add: sanitizeFilename_def)
  show ?thesis
    using idem inv ends collapsed_set [OF col] collapsed_nth [OF col] by blast
qed

theorem sanitizeFilename_idempotent_normal_witness:
  \<open>sanitizeFilename (js ''  a<b   c?  d/  '') = js ''ab c d''
   \<and> sanitizeFilename (js ''ab c d'') = js ''ab c d''
   \<and> js ''ab c d'' ! 2 = 0x20
   \<and> \<not> isWhiteSpace (js ''ab c d'' ! 3)
   \<and> \<not> isWhiteSpace (hd (js ''ab c d''))
   \<and> \<not> isWhiteSpace (last (js ''ab c d''))\<close>
proof -
  have e: \<open>sanitizeFilename (js ''  a<b   c?  d/  '') = js ''ab c d''\<close>
    by code_simp
  have w: \<open>isWhiteSpace (js ''ab c d'' ! 2)\<close> and n: \<open>Suc 2 < length (js ''ab c d'')\<close>
    by code_simp+
  show ?thesis
    using sanitizeFilename_idempotent_normal [of \<open>js ''  a<b   c?  d/  ''\<close>] w n
    unfolding e by (auto simp: js_def numeral_3_eq_3)
qed

text \<open>
  C3, as amended. When the HTML holds no base content URL, both extractions fail before
  any locator strategy starts, whatever track attributes the page has. The error is the
  one for the missing base URL unless an earlier step has already failed: the short-link
  redirect of a single-track page, or the artist handle of a profile page.
\<close>

theorem no_base_url_fails_before_locators:
  assumes \<open>extractAwsBaseUrl (outerHTML d) = None\<close>
  shows \<open>extractSingleBeat h d u caf =
           ([], Inl (Error (if stringIncludes u (js ''traktra.in/t/'') \<and> fetchFinalUrl h u = None
                            then js ''Could not resolve short URL'' else singleAwsError)))
         \<and> extractProfileBeats h d u caf =
           ([], Inl (Error (if extractArtistFromUrl h u = None
                            then artistError else profileAwsError)))\<close>
proof -
  have s: \<open>extractSingleBeat h d u caf =
           ([], Inl (Error (if stringIncludes u (js ''traktra.in/t/'') \<and> fetchFinalUrl h u = None
                            then js ''Could not resolve short URL'' else singleAwsError)))\<close>
    using assms
    by (auto simp: extractSingleBeat_def followRedirect_def Let_def split: option.splits)
  have p: \<open>extractProfileBeats h d u caf =
           ([], Inl (Error (if extractArtistFromUrl h u = None
                            then artistError else profileAwsError)))\<close>
    using assms extractArtistFromUrl_nonempty [of h u]
    by (auto simp: extractProfileBeats_def Let_def split: option.splits)
  show ?thesis using s p by simp
qed

theorem no_base_url_fails_before_locators_witness:
  \<open>extractSingleBeat exampleHost pageWithoutBase (js ''https://traktrain.com/someartist'') True
     = ([], Inl (Error singleAwsError))
   \<and> extractProfileBeats exampleHost pageWithoutBase (js ''https://traktrain.com/someartist'') True
     = ([], Inl (Error profileAwsError))\<close>
proof -
  have a: \<open>extractAwsBaseUrl (outerHTML pageWithoutBase) = None\<close>
    by code_simp
  have b: \<open>\<not> stringIncludes (js ''https://traktrain.com/someartist'') (js ''traktra.in/t/'')\<close>
    by code_simp
  have c: \<open>extractArtistFromUrl exampleHost (js ''https://traktrain.com/someartist'') \<noteq> None\<close>
    by code_simp
  show ?thesis
    using no_base_url_fails_before_locators
            [OF a, of exampleHost \<open>js ''https://traktrain.com/someartist''\<close> True] b c
    by simp
qed

text \<open>
  C3 as stated fails: on a profile page whose URL has no path segment the error is the
  artist error, and on a single-track short link whose redirect cannot be followed it
  is the redirect error, although the HTML holds no base content URL either.
\<close>

theorem no_base_url_other_error_counterexample:
  \<open>extractAwsBaseUrl (outerHTML pageWithoutBase) = None
   \<and> extractProfileBeats exampleHost pageWithoutBase (href pageWithoutBase) True
       = ([], Inl (Error artistError))
   \<and> artistError \<noteq> profileAwsError
   \<and> stringIncludes (js ''https://traktra.in/t/abc'') (js ''traktra.in/t/'')
   \<and> extractSingleBeat exampleHost pageWithoutBase (js ''https://traktra.in/t/abc'') True
       = ([], Inl (Error (js ''Could not resolve short URL'')))
   \<and> js ''Could not resolve short URL'' \<noteq> singleAwsError\<close>
  by code_simp

text \<open>
  C4. When the URL of a profile page has no non-empty path segment (or does not parse),
  no artist handle is derived and the extraction fails with the artist error before any
  locator strategy starts; the handler returns the failure envelope, which holds no
  tracks.
\<close>

theorem profile_without_artist_fails:
  assumes \<open>case urlPathname h u of
             None \<Rightarrow> True
           | Some pathname \<Rightarrow> \<forall>part \<in> set (split (js ''/'') pathname). part = []\<close>
  shows \<open>extractArtistFromUrl h u = None
         \<and> extractProfileBeats h d u caf = ([], Inl (Error artistError))
         \<and> (href d = u \<longrightarrow>
              handleDataExtraction h d (Some (JString (js ''profile''))) caf
                = ([], Failure artistError))\<close>
proof -
  have a: \<open>extractArtistFromUrl h u = None\<close>
    using assms by (simp add: extractArtistFromUrl_None)
  then have p: \<open>extractProfileBeats h d u caf = ([], Inl (Error artistError))\<close>
    by (simp add: extractProfileBeats_def)
  have \<open>js ''profile'' \<noteq> js ''single''\<close> by (simp add: js_def)
  then show ?thesis using a p by (simp add: handleDataExtraction_def)
qed

theorem profile_without_artist_fails_witness:
  \<open>extractProfileBeats exampleHost pageWithoutBase (js ''https://traktrain.com/'') True
     = ([], Inl (Error artistError))
   \<and> handleDataExtraction exampleHost pageWithoutBase (Some (JString (js ''profile''))) True
     = ([], Failure artistError)\<close>
proof -
  have p: \<open>case urlPathname exampleHost (js ''https://traktrain.com/'') of
             None \<Rightarrow> True
           | Some pathname \<Rightarrow> \<forall>part \<in> set (split (js ''/'') pathname). part = []\<close>
    by code_simp
  have u: \<open>href pageWithoutBase = js ''https://traktrain.com/''\<close>
    by (simp add: pageWithoutBase_def)
  show ?thesis
    using profile_without_artist_fails [OF p, of pageWithoutBase True] u by simp
qed




text \<open>
  C6, evaluated on a single-track page whose only data attribute holds the empty object
  \<^verbatim>\<open>{}\<close>. The first strategy yields the descriptor with the default name and no
  \<^verbatim>\<open>src\<close>; the cascade stops there, after \<^verbatim>\<open>Method 1\<close> alone, and the
  extraction succeeds with the URL \<^verbatim>\<open>https://cdn.example.com/undefined\<close>. The
  profile loop, given the same descriptor, skips it.
\<close>

theorem single_descriptor_without_src_accepted:
  \<open>extractTrackInfo exampleHost (outerHTML emptyInfoPage)
     = Some (TrackInfo (JString (js ''Unknown Track'')) None)
   \<and> handleDataExtraction exampleHost emptyInfoPage (Some (JString (js ''single''))) True
     = ([Method1],
        Success (Extraction
          [Track (js ''Unknown Track'') (js ''https://cdn.example.com/undefined'') (js ''someartist'')]
          (js ''someartist'') True))
   \<and> makeTrack exampleHost (js ''https://cdn.example.com/'') (js ''someartist'') (JObject [])
     = Some None\<close>
  by code_simp

text \<open>
  C7, evaluated on a single-track page with the title \<^verbatim>\<open>someartist - Night Drive\<close>
  and one audio element under the base URL. The third strategy of the script names the
  track by the first segment of the title, \<^verbatim>\<open>someartist\<close>; the claim's wording
  (\<^const>\<open>claimedFromPageElements\<close>) names it by the second, \<^verbatim>\<open>Night Drive\<close>. The
  handler returns the track \<^verbatim>\<open>someartist\<close> by the artist \<^verbatim>\<open>Night Drive\<close>.
\<close>

theorem page_elements_name_is_first_segment:
  \<open>pageTrackName artistFirstPage = Some (js ''someartist'')
   \<and> claimedPageTrackName artistFirstPage = Some (js ''Night Drive'')
   \<and> fromPageElements artistFirstPage (js ''https://cdn.example.com'')
     = Some (TrackInfo (JString (js ''someartist'')) (Some (JString (js ''/night.mp3''))))
   \<and> claimedFromPageElements artistFirstPage (js ''https://cdn.example.com'')
     = Some (TrackInfo (JString (js ''Night Drive'')) (Some (JString (js ''/night.mp3''))))
   \<and> handleDataExtraction exampleHost artistFirstPage (Some (JString (js ''single''))) True
     = ([Method1, Method2, Method3],
        Success (Extraction
          [Track (js ''someartist'') (js ''https://cdn.example.com/night.mp3'') (js ''Night Drive'')]
          (js ''Night Drive'') True))\<close>
  by code_simp

text \<open>
  C8. On a profile page the attribute scan handles every element on its own: an element
  whose JSON does not parse, or whose \<^verbatim>\<open>name\<close> or \<^verbatim>\<open>src\<close> is missing, is
  skipped and the scan goes on. When every element is a valid descriptor or such a
  skipped one, and one at least is valid, the extraction returns exactly the tracks of
  the valid elements, in document order, with sanitized names, from the first strategy
  alone; their number is the number of valid elements.
\<close>

theorem attribute_scan_keeps_valid_elements:
  assumes \<open>extractArtistFromUrl h u = Some artist\<close>
    and \<open>extractAwsBaseUrl (outerHTML d) = Some awsBaseUrl\<close>
    and \<open>\<forall>e \<in> set (playerInfoElements d). validDescriptor e \<noteq> None \<or> malformedOrMissing h e\<close>
    and \<open>\<exists>e \<in> set (playerInfoElements d). validDescriptor e \<noteq> None\<close>
  shows \<open>extractProfileBeats h d u caf =
           ([Method1],
            Inr (Extraction (List.map_filter (validTrack awsBaseUrl artist) (playerInfoElements d))
                   artist caf))
         \<and> length (List.map_filter (validTrack awsBaseUrl artist) (playerInfoElements d))
             = length (filter (\<lambda>e. validDescriptor e \<noteq> None) (playerInfoElements d))\<close>
proof -
  let ?es = \<open>playerInfoElements d\<close>
  let ?ts = \<open>List.map_filter (validTrack awsBaseUrl artist) ?es\<close>
  have 1: \<open>scanElements h awsBaseUrl artist ?es [] = ?ts\<close>
    unfolding scanElements_map_filter
    using map_filter_cong_set [of ?es \<open>elementTrack h awsBaseUrl artist\<close> \<open>validTrack awsBaseUrl artist\<close>]
      elementTrack_validTrack assms(3) by simp
  have len: \<open>length ?ts = length (filter (\<lambda>e. validDescriptor e \<noteq> None) ?es)\<close>
    by (simp add: length_map_filter validTrack_def)
  have \<open>filter (\<lambda>e. validDescriptor e \<noteq> None) ?es \<noteq> []\<close>
    using assms(4) by (simp add: filter_empty_conv)
  then have ne: \<open>?ts \<noteq> []\<close> using len by auto
  have l: \<open>locateAllTracks h d (outerHTML d) awsBaseUrl artist = ([Method1], ?ts)\<close>
    using 1 ne by (simp add: locateAllTracks_def)
  have \<open>artist \<noteq> []\<close> \<open>awsBaseUrl \<noteq> []\<close>
    using assms(1,2) extractArtistFromUrl_nonempty extractAwsBaseUrl_nonempty by auto
  then have \<open>extractProfileBeats h d u caf = ([Method1], Inr (Extraction ?ts artist caf))\<close>
    using assms(1,2) l ne by (simp add: extractProfileBeats_def)
  then show ?thesis using len by simp
qed

theorem attribute_scan_keeps_valid_elements_witness:
  \<open>extractProfileBeats exampleHost fourElementPage (js ''https://traktrain.com/someartist'') True =
     ([Method1],
      Inr (Extraction
        [Track (js ''One First'') (js ''https://cdn.example.com/1.mp3'') (js ''someartist''),
         Track (js ''Three beats'') (js ''https://cdn.example.com/3.mp3'') (js ''someartist''),
         Track (js ''Four'') (js ''https://cdn.example.com/4.mp3'') (js ''someartist'')]
        (js ''someartist'') True))
   \<and> JSON_parse (js ''{"name":"Two","src":"/2.mp3"'') = None\<close>
proof -
  have a: \<open>extractArtistFromUrl exampleHost (js ''https://traktrain.com/someartist'')
             = Some (js ''someartist'')\<close>
    by code_simp
  have b: \<open>extractAwsBaseUrl (outerHTML fourElementPage) = Some (js ''https://cdn.example.com'')\<close>
    by code_simp
  have c: \<open>\<forall>e \<in> set (playerInfoElements fourElementPage).
             validDescriptor e \<noteq> None \<or> malformedOrMissing exampleHost e\<close>
    by code_simp
  have d: \<open>\<exists>e \<in> set (playerInfoElements fourElementPage). validDescriptor e \<noteq> None\<close>
    by code_simp
  have e: \<open>List.map_filter (validTrack (js ''https://cdn.example.com'') (js ''someartist''))
             (playerInfoElements fourElementPage) =
        [Track (js ''One First'') (js ''https://cdn.example.com/1.mp3'') (js ''someartist''),
         Track (js ''Three beats'') (js ''https://cdn.example.com/3.mp3'') (js ''someartist''),
         Track (js ''Four'') (js ''https://cdn.example.com/4.mp3'') (js ''someartist'')]\<close>
    by code_simp
  have f: \<open>JSON_parse (js ''{"name":"Two","src":"/2.mp3"'') = None\<close>
    by code_simp
  show ?thesis
    using attribute_scan_keeps_valid_elements [OF a b c d, of True] e f by simp
qed

text \<open>
  C9, as amended. For each matching pattern in turn, the state scan parses the captured
  JSON and takes as the track list the parsed value itself when it is an array, empty or
  not; otherwise the first truthy value among \<^verbatim>\<open>.tracks\<close>, \<^verbatim>\<open>.beats\<close>
  and \<^verbatim>\<open>.user.tracks\<close>, and the empty list when none is truthy. An empty
  array is truthy, so an empty \<^verbatim>\<open>.tracks\<close> is taken and the later fields are
  not probed. The scan stops at the first pattern after which a track has been collected
  and nothing was thrown, and goes on with the next pattern otherwise.
\<close>

theorem pickTrackArray_first_truthy:
  \<open>pickTrackArray h (JArray xs) = Some (JArray xs)
   \<and> pickTrackArray h JNull = None
   \<and> ((\<forall>xs. data \<noteq> JArray xs) \<and> data \<noteq> JNull
        \<longrightarrow> pickTrackArray h data = Some (firstTruthyField h data))
   \<and> scanStatePatterns h b a html (p # ps) acc =
       (case patternStep h b a html p acc of
          (ts, threw) \<Rightarrow> if \<not> threw \<and> ts \<noteq> [] then ts else scanStatePatterns h b a html ps ts)\<close>
proof -
  have 1: \<open>pickTrackArray h (JArray xs) = Some (JArray xs)\<close>
    by (simp add: pickTrackArray_def)
  have 2: \<open>pickTrackArray h JNull = None\<close>
    by (simp add: pickTrackArray_def)
  have 3: \<open>pickTrackArray h data = Some (firstTruthyField h data)\<close>
    if nn: \<open>\<forall>xs. data \<noteq> JArray xs\<close> \<open>data \<noteq> JNull\<close>
  proof -
    obtain t where t: \<open>getProp data (js ''tracks'') = Inr t\<close>
      using nn by (cases data) auto
    obtain bt where bt: \<open>getProp data (js ''beats'') = Inr bt\<close>
      using nn by (cases data) auto
    obtain us where us: \<open>getProp data (js ''user'') = Inr us\<close>
      using nn by (cases data) auto
    have c: \<open>fieldCandidates data = [t, bt, field us (js ''tracks'')]\<close>
      using t bt us by (simp add: fieldCandidates_def field_def)
    show ?thesis
    proof (cases \<open>truthy h t\<close>)
      case True
      then obtain v where \<open>t = Some v\<close> by (cases t) auto
      then show ?thesis using True t nn c
        by (cases data) (auto simp: pickTrackArray_def firstTruthyField_def)
    next
      case ft: False
      show ?thesis
      proof (cases \<open>truthy h bt\<close>)
        case True
        then obtain v where \<open>bt = Some v\<close> by (cases bt) auto
        then show ?thesis using True ft t bt nn c
          by (cases data) (auto simp: pickTrackArray_def firstTruthyField_def)
      next
        case fb: False
        show ?thesis
        proof (cases us)
          case None
          then show ?thesis using ft fb t bt us nn c
            by (cases data) (auto simp: pickTrackArray_def firstTruthyField_def field_def)
        next
          case (Some user)
          show ?thesis
          proof (cases \<open>truthy h (Some user)\<close>)
            case False
            then have \<open>field us (js ''tracks'') = None\<close>
              using Some getProp_falsy_no_tracks by simp
            then show ?thesis using False Some ft fb t bt us nn c
              by (cases data) (auto simp: pickTrackArray_def firstTruthyField_def)
          next
            case True
            then obtain ut where ut: \<open>getProp user (js ''tracks'') = Inr ut\<close>
              by (cases user) auto
            then have f: \<open>field us (js ''tracks'') = ut\<close> using Some by (simp add: field_def)
            show ?thesis
            proof (cases \<open>truthy h ut\<close>)
              case tu: True
              then obtain v where \<open>ut = Some v\<close> by (cases ut) auto
              then show ?thesis using tu True Some ft fb t bt us ut f nn c
                by (cases data) (auto simp: pickTrackArray_def firstTruthyField_def)
            next
              case fu: False
              then show ?thesis using True Some ft fb t bt us ut f nn c
                by (cases data) (auto simp: pickTrackArray_def firstTruthyField_def)
            qed
          qed
        qed
      qed
    qed
  qed
  show ?thesis using 1 2 3 scanStatePatterns_step by blast
qed

theorem pickTrackArray_first_truthy_witness:
  \<open>pickTrackArray exampleHost emptyTracksState = Some (JArray [])
   \<and> firstTruthyField exampleHost emptyTracksState = JArray []
   \<and> pickTrackArray exampleHost (JArray []) = Some (JArray [])\<close>
proof -
  have n: \<open>(\<forall>xs. emptyTracksState \<noteq> JArray xs) \<and> emptyTracksState \<noteq> JNull\<close>
    by (simp add: emptyTracksState_def)
  have f: \<open>firstTruthyField exampleHost emptyTracksState = JArray []\<close>
    by code_simp
  show ?thesis
    using pickTrackArray_first_truthy [of exampleHost \<open>[]\<close> emptyTracksState] n f by simp
qed

text \<open>
  C9 as stated fails: with an empty \<^verbatim>\<open>.tracks\<close> and a filled
  \<^verbatim>\<open>.user.tracks\<close> the script takes the empty list, not the first non-empty
  candidate, and the extraction ends without tracks.
\<close>

theorem first_nonempty_candidate_counterexample:
  \<open>JSON_parse (js ''{"tracks":[],"user":{"tracks":[{"name":"Beat","src":"/beat.mp3"}]}}'')
     = Some emptyTracksState
   \<and> pickTrackArray exampleHost emptyTracksState = Some (JArray [])
   \<and> claimedTrackList emptyTracksState
     = Some (JArray [JObject [(js ''name'', JString (js ''Beat'')),
                              (js ''src'', JString (js ''/beat.mp3''))]])
   \<and> handleDataExtraction exampleHost emptyTracksPage (Some (JString (js ''profile''))) True
     = ([Method1, Method2, Method3],
        Failure (js ''No tracks found on this profile page. Make sure the page has loaded completely and try again. Debug info: AWS URL found, data-player-info elements: 0''))\<close>
  by code_simp

text \<open>
  C10, as amended. The promise of the handler settles exactly when its awaits do: the
  \<^verbatim>\<open>load\<close> event of the page and, for a single-track request on a short link,
  the \<^verbatim>\<open>fetch\<close> of the redirect. Then it resolves to an envelope and never
  rejects. A request type other than \<^verbatim>\<open>single\<close> and \<^verbatim>\<open>profile\<close> gives the
  failure envelope \<^verbatim>\<open>Invalid extraction type\<close> with no strategy started. The message
  of a failure envelope is one of the fixed messages of the script, the no-tracks
  message of the profile page, or the message of a type error raised by the engine. A
  success envelope holds at least one track. The listener answers an
  \<^verbatim>\<open>extractData\<close> request with that envelope.
\<close>

theorem handler_resolves_when_awaits_settle:
  \<open>(\<not> awaitsSettle h d requestType \<longrightarrow>
      handleDataExtractionPromise h d requestType caf = None)
   \<and> (awaitsSettle h d requestType \<longrightarrow>
      (\<exists>started env.
         handleDataExtractionPromise h d requestType caf = Some (started, env)
         \<and> (requestType \<noteq> Some (JString (js ''single''))
              \<and> requestType \<noteq> Some (JString (js ''profile''))
              \<longrightarrow> started = [] \<and> env = Failure (js ''Invalid extraction type''))
         \<and> (\<forall>m. env = Failure m \<longrightarrow>
               m \<in> set scriptErrors
               \<or> (\<exists>b. extractAwsBaseUrl (outerHTML d) = Some b
                      \<and> m = noTracksError (href d) b (length (playerInfoElements d)))
               \<or> (\<exists>k. m = typeErrorMessage h k))
         \<and> (\<forall>x. env = Success x \<longrightarrow> extractedTracks x \<noteq> [])
         \<and> (\<forall>req. action req = Some (JString (js ''extractData''))
                  \<and> extractionType req = requestType \<and> createArtistFolder req = caf
               \<longrightarrow> onMessage h d req = Some env)))\<close>
proof -
  obtain started env where r: \<open>handleDataExtraction h d requestType caf = (started, env)\<close>
    by (cases \<open>handleDataExtraction h d requestType caf\<close>)
  have 1: \<open>requestType \<noteq> Some (JString (js ''single''))
              \<and> requestType \<noteq> Some (JString (js ''profile''))
              \<longrightarrow> started = [] \<and> env = Failure (js ''Invalid extraction type'')\<close>
    using r by (auto simp: handleDataExtraction_def)
  have 2: \<open>\<forall>m. env = Failure m \<longrightarrow>
               m \<in> set scriptErrors
               \<or> (\<exists>b. extractAwsBaseUrl (outerHTML d) = Some b
                      \<and> m = noTracksError (href d) b (length (playerInfoElements d)))
               \<or> (\<exists>k. m = typeErrorMessage h k)\<close>
    using r handleDataExtraction_Failure [of h d requestType caf started] by blast
  have 3: \<open>\<forall>x. env = Success x \<longrightarrow> extractedTracks x \<noteq> []\<close>
    using r handleDataExtraction_Success_nonempty [of h d requestType caf started] by blast
  have 4: \<open>awaitsSettle h d requestType \<Longrightarrow>
            handleDataExtractionPromise h d requestType caf = Some (started, env)\<close>
    using r by (simp add: handleDataExtractionPromise_def)
  have 5: \<open>awaitsSettle h d requestType \<Longrightarrow>
            \<forall>req. action req = Some (JString (js ''extractData''))
                  \<and> extractionType req = requestType \<and> createArtistFolder req = caf
               \<longrightarrow> onMessage h d req = Some env\<close>
    using 4 by (auto simp: onMessage_def)
  have 6: \<open>\<not> awaitsSettle h d requestType \<Longrightarrow>
            handleDataExtractionPromise h d requestType caf = None\<close>
    by (simp add: handleDataExtractionPromise_def)
  show ?thesis using 1 2 3 4 5 6 by blast
qed

theorem handler_resolves_when_awaits_settle_witness:
  \<open>awaitsSettle exampleHost pageWithoutBase (Some (JString (js ''album'')))
   \<and> handleDataExtractionPromise exampleHost pageWithoutBase (Some (JString (js ''album''))) True
       = Some ([], Failure (js ''Invalid extraction type''))
   \<and> onMessage exampleHost pageWithoutBase
        \<lparr>action = Some (JString (js ''extractData'')),
         extractionType = Some (JString (js ''album'')), createArtistFolder = True\<rparr>
       = Some (Failure (js ''Invalid extraction type''))
   \<and> \<not> awaitsSettle exampleHost loadingPage (Some (JString (js ''album'')))
   \<and> handleDataExtractionPromise exampleHost loadingPage (Some (JString (js ''album''))) True
       = None\<close>
proof -
  have s: \<open>awaitsSettle exampleHost pageWithoutBase (Some (JString (js ''album'')))\<close>
    by code_simp
  have n: \<open>\<not> awaitsSettle exampleHost loadingPage (Some (JString (js ''album'')))\<close>
    by code_simp
  have t: \<open>Some (JString (js ''album'')) \<noteq> Some (JString (js ''single''))\<close>
          \<open>Some (JString (js ''album'')) \<noteq> Some (JString (js ''profile''))\<close>
    by (simp_all add: js_def)
  show ?thesis
    using handler_resolves_when_awaits_settle
            [of exampleHost pageWithoutBase \<open>Some (JString (js ''album''))\<close> True]
          handler_resolves_when_awaits_settle
            [of exampleHost loadingPage \<open>Some (JString (js ''album''))\<close> True]
          s n t
    by auto
qed

text \<open>
  C10 as stated fails: on a page whose \<^verbatim>\<open>load\<close> event never fires, and on a short
  link whose \<^verbatim>\<open>fetch\<close> never settles, the promise stays pending and the listener
  sends no answer.
\<close>

theorem handler_stays_pending_counterexample:
  \<open>handleDataExtractionPromise exampleHost loadingPage (Some (JString (js ''profile''))) True = None
   \<and> onMessage exampleHost loadingPage
        \<lparr>action = Some (JString (js ''extractData'')),
         extractionType = Some (JString (js ''profile'')), createArtistFolder = True\<rparr> = None
   \<and> handleDataExtractionPromise hangingHost
        (pageWithoutBase\<lparr>href := js ''https://traktra.in/t/abc''\<rparr>)
        (Some (JString (js ''single''))) True = None\<close>
  by code_simp

end
